theory Spec2Isabelle
  imports Main
begin

section \<open>Strings, errors, dates\<close>

text \<open>
  A JavaScript string is a sequence of UTF-16 code units, modelled as a list of naturals.
  Element and attribute names, source keys and exception names are plain ASCII and stay
  \<open>string\<close>s; \<open>ascii\<close> turns an ASCII literal into a JavaScript string.
\<close>

type_synonym jsstring = "nat list"

definition ascii :: "string \<Rightarrow> jsstring" where
  "ascii s = map of_char s"

text \<open>
  The white space and line terminator code units of ECMAScript: the ones that
  \<open>String.prototype.trim\<close> strips and that \<open>\s\<close> matches in a regular expression.
\<close>

definition is_space :: "nat \<Rightarrow> bool" where
  "is_space c = (c \<in> {9, 10, 11, 12, 13, 32, 160, 5760, 8232, 8233, 8239, 8287, 12288, 65279}
                 \<or> (8192 \<le> c \<and> c \<le> 8202))"

definition trim :: "jsstring \<Rightarrow> jsstring" where
  "trim s = rev (dropWhile is_space (rev (dropWhile is_space s)))"

text \<open>
  An exception value. \<open>Error m\<close> is what the program builds with \<open>new Error(m)\<close>;
  \<open>Native name m\<close> is an exception raised by the platform (a rejected \<open>fetch\<close>, a
  \<open>URIError\<close>, a \<open>TypeError\<close>, a \<open>DOMException\<close>) with its name and message.
\<close>

datatype js_error = Error jsstring | Native string jsstring

fun message :: "js_error \<Rightarrow> jsstring" where
  "message (Error m) = m"
| "message (Native n m) = m"

text \<open>
  A \<open>Date\<close> object holds a time value in milliseconds since the epoch, or \<open>NaN\<close>
  (an "Invalid Date"). Time values are integral, and the embedding computes with them as
  integers; this agrees with the IEEE doubles of the source as long as the difference of
  two time values stays below \<open>2^53\<close> in absolute value.
\<close>

datatype date = Invalid_Date | Date int

text \<open>Decimal rendering of a non-negative integer, as a template literal renders a number.\<close>

fun decimal :: "nat \<Rightarrow> jsstring" where
  "decimal n = (if n < 10 then [48 + n] else decimal (n div 10) @ [48 + n mod 10])"

declare decimal.simps [simp del]

section \<open>The parsed feed document\<close>

text \<open>
  The DOM tree that \<open>DOMParser.parseFromString(xmlText, 'text/xml')\<close> returns, reduced to
  what \<open>parseRSS\<close> reads: elements with their local name, attributes and children, and
  text nodes (CDATA sections are text nodes). Comments and processing instructions
  contribute neither to \<open>textContent\<close> nor to selector matching and are left out.
  A document is modelled by its document element.
\<close>

datatype node = Element string "(string \<times> jsstring) list" "node list" | Text jsstring

fun descendants :: "node \<Rightarrow> node list" where
  "descendants (Element t as cs) = concat (map (\<lambda>c. c # descendants c) cs)"
| "descendants (Text s) = []"

fun textContent :: "node \<Rightarrow> jsstring" where
  "textContent (Element t as cs) = concat (map textContent cs)"
| "textContent (Text s) = s"

fun getAttribute :: "node \<Rightarrow> string \<Rightarrow> jsstring option" where
  "getAttribute (Element t as cs) a = map_of as a"
| "getAttribute (Text s) a = None"

text \<open>
  The selectors of the source are type selectors and comma-separated lists of them; a
  selector is the list of the local names it accepts.
\<close>

fun matches :: "string list \<Rightarrow> node \<Rightarrow> bool" where
  "matches sel (Element t as cs) = (t \<in> set sel)"
| "matches sel (Text s) = False"

text \<open>\<open>Element.querySelector\<close>: the first proper descendant, in document order, that matches.\<close>

definition querySelector :: "string list \<Rightarrow> node \<Rightarrow> node option" where
  "querySelector sel n = find (matches sel) (descendants n)"

text \<open>\<open>Document.querySelector\<close> and \<open>Document.querySelectorAll\<close> also see the document element.\<close>

definition doc_querySelector :: "string list \<Rightarrow> node \<Rightarrow> node option" where
  "doc_querySelector sel root = find (matches sel) (root # descendants root)"

definition doc_querySelectorAll :: "string list \<Rightarrow> node \<Rightarrow> node list" where
  "doc_querySelectorAll sel root = filter (matches sel) (root # descendants root)"

section \<open>The platform\<close>

text \<open>
  What the browser supplies and the repository does not define is a parameter of the
  model:
  \<^item> \<open>fetch_response n url\<close>: how the \<open>n\<close>-th network request of the page (counted from 0),
    issued for \<open>url\<close>, ends;
  \<^item> \<open>encodeURIComponent\<close>, which raises a \<open>URIError\<close> on a lone surrogate;
  \<^item> \<open>parseFromString\<close>, the XML parser of \<open>DOMParser\<close>; on malformed input the document
    it returns contains a \<open>parsererror\<close> element;
  \<^item> \<open>Date_parse\<close>, the \<open>Date\<close> constructor applied to a string;
  \<^item> \<open>clock n\<close>, the reading of \<open>new Date()\<close> in the synchronous code that runs after \<open>n\<close>
    requests have been issued;
  \<^item> \<open>detached_write_throws\<close>: the DOM standard makes an assignment to \<open>outerHTML\<close> of an
    element without a parent return silently; some engines raise a
    \<open>NoModificationAllowedError\<close> instead. Either way the document does not change;
  \<^item> \<open>native_message name\<close>: the engine's message text for an exception it raises itself.
\<close>

datatype fetch_result =
    Rejected js_error
  | Response nat "js_error + jsstring"

record platform =
  fetch_response :: "nat \<Rightarrow> jsstring \<Rightarrow> fetch_result"
  encodeURIComponent :: "jsstring \<Rightarrow> js_error + jsstring"
  parseFromString :: "jsstring \<Rightarrow> node"
  Date_parse :: "jsstring \<Rightarrow> date"
  clock :: "nat \<Rightarrow> int"
  detached_write_throws :: bool
  native_message :: "string \<Rightarrow> jsstring"

section \<open>parseRSS\<close>

record news_item =
  title :: jsstring
  link :: jsstring
  description :: jsstring
  pubDate :: date
  isHot :: bool

text \<open>
  \<open>s.replace(/^\s*<!\[CDATA\[(.*)\]\]>\s*$/s, '$1')\<close>. The pattern is anchored at both
  ends and \<open>]]>\<close> holds no white space, so the string matches exactly when, white space
  at both ends aside, it starts with the opening marker and what follows the marker ends
  with the closing one; the group is what lies between.
\<close>

definition cdata_open :: jsstring where
  "cdata_open = ascii ''<![CDATA[''"

definition cdata_close :: jsstring where
  "cdata_close = ascii '']]>''"

definition unwrap_cdata :: "jsstring \<Rightarrow> jsstring" where
  "unwrap_cdata s =
     (let s1 = dropWhile is_space s in
      if take 9 s1 = cdata_open then
        (let r = rev (dropWhile is_space (rev (drop 9 s1))) in
         if 3 \<le> length r \<and> drop (length r - 3) r = cdata_close
         then take (length r - 3) r else s)
      else s)"

text \<open>The title of an entry as lines 172 to 176 compute it.\<close>

definition entry_title :: "node \<Rightarrow> jsstring" where
  "entry_title item =
     (let title = (case querySelector [''title''] item of
                     Some titleEl \<Rightarrow> trim (textContent titleEl)
                   | None \<Rightarrow> [])
      in trim (unwrap_cdata title))"

definition entry_link :: "node \<Rightarrow> jsstring" where
  "entry_link item =
     (case querySelector [''link''] item of
        None \<Rightarrow> []
      | Some linkEl \<Rightarrow>
          (case getAttribute linkEl ''href'' of
             None \<Rightarrow> trim (textContent linkEl)
           | Some href \<Rightarrow> if href \<noteq> [] then href else trim (textContent linkEl)))"

definition entry_description :: "node \<Rightarrow> jsstring" where
  "entry_description item =
     (let description = (case querySelector [''description'', ''summary'', ''content''] item of
                           Some descEl \<Rightarrow> trim (textContent descEl)
                         | None \<Rightarrow> [])
      in trim (unwrap_cdata description))"

text \<open>
  Lines 191 to 197. The \<open>Date\<close> constructor does not raise on a string it cannot parse: it
  returns an Invalid Date, so the \<open>catch\<close> never runs and the default of line 192 is
  overwritten.
\<close>

definition entry_pubDate :: "platform \<Rightarrow> int \<Rightarrow> node \<Rightarrow> date" where
  "entry_pubDate env now item =
     (case querySelector [''pubDate'', ''published'', ''updated'', ''date''] item of
        None \<Rightarrow> Date now
      | Some pubDateEl \<Rightarrow> Date_parse env (textContent pubDateEl))"

text \<open>The object literal of lines 200 to 206, for the entry at raw position \<open>index\<close>.\<close>

definition entry_item :: "platform \<Rightarrow> int \<Rightarrow> node \<Rightarrow> nat \<Rightarrow> news_item" where
  "entry_item env now item index =
     \<lparr>title = entry_title item, link = entry_link item,
      description = entry_description item,
      pubDate = entry_pubDate env now item,
      isHot = (index < 3)\<rparr>"

text \<open>The callback of \<open>itemElements.forEach\<close>, lines 168 to 208; \<open>items\<close> is the array it pushes to.\<close>

definition entry_callback ::
  "platform \<Rightarrow> int \<Rightarrow> node \<Rightarrow> nat \<Rightarrow> news_item list \<Rightarrow> news_item list" where
  "entry_callback env now item index items =
     (if index \<ge> 8 then items
      else if entry_title item \<noteq> [] then items @ [entry_item env now item index]
      else items)"

fun forEach :: "('a \<Rightarrow> nat \<Rightarrow> 's \<Rightarrow> 's) \<Rightarrow> 'a list \<Rightarrow> nat \<Rightarrow> 's \<Rightarrow> 's" where
  "forEach f [] index s = s"
| "forEach f (x # xs) index s = forEach f xs (Suc index) (f x index s)"

text \<open>Lines 161 to 166: RSS 2.0 \<open>item\<close> elements, or Atom \<open>entry\<close> elements when there is none.\<close>

definition itemElements :: "node \<Rightarrow> node list" where
  "itemElements xmlDoc =
     (if length (doc_querySelectorAll [''item''] xmlDoc) = 0
      then doc_querySelectorAll [''entry''] xmlDoc
      else doc_querySelectorAll [''item''] xmlDoc)"

definition parseRSS :: "platform \<Rightarrow> int \<Rightarrow> jsstring \<Rightarrow> js_error + news_item list" where
  "parseRSS env now xmlText =
     (let xmlDoc = parseFromString env xmlText in
      case doc_querySelector [''parsererror''] xmlDoc of
        Some parseError \<Rightarrow> Inl (Error (ascii ''Failed to parse RSS XML''))
      | None \<Rightarrow> Inr (forEach (entry_callback env now) (itemElements xmlDoc) 0 []))"

text \<open>
  \<open>createNewsCard\<close> numbers the items it is given by their position in the array
  (\<open>index + 1\<close> in the markup, line 277): the rank of an item is its index in the list
  \<open>parseRSS\<close> returns.
\<close>

definition ranked :: "news_item list \<Rightarrow> (nat \<times> news_item) list" where
  "ranked items = enumerate 0 items"

section \<open>formatTimeAgo\<close>

text \<open>The argument is any JavaScript value: a \<open>Date\<close> object or something else.\<close>

datatype jsvalue = DateValue date | OtherValue

definition just_updated :: jsstring where
  "just_updated = [21018, 21018, 26356, 26032]"

definition minutes_ago :: jsstring where
  "minutes_ago = [20998, 38047, 21069, 26356, 26032]"

definition hours_ago :: jsstring where
  "hours_ago = [23567, 26102, 21069, 26356, 26032]"

definition days_ago :: jsstring where
  "days_ago = [22825, 21069, 26356, 26032]"

definition formatTimeAgo :: "int \<Rightarrow> jsvalue \<Rightarrow> jsstring" where
  "formatTimeAgo now v =
     (case v of
        OtherValue \<Rightarrow> just_updated
      | DateValue Invalid_Date \<Rightarrow> just_updated
      | DateValue (Date t) \<Rightarrow>
          (let diffMs = now - t;
               diffMins = diffMs div 60000
           in if diffMins < 0 then just_updated
              else if diffMins < 1 then just_updated
              else if diffMins < 60 then decimal (nat diffMins) @ minutes_ago
              else
                (let diffHours = diffMins div 60
                 in if diffHours < 24 then decimal (nat diffHours) @ hours_ago
                    else
                      (let diffDays = diffHours div 24
                       in decimal (nat diffDays) @ days_ago))))"

section \<open>The page: network log and cards\<close>

text \<open>
  The markup of a card is determined by the source key and by the arguments of the
  function that builds it; a card's content is modelled by those arguments.
  A card element has an identity: \<open>fetchAndRenderSource\<close> keeps a reference to the element
  it found when it started, and assigning \<open>outerHTML\<close> replaces that element in the
  document by a new one.
\<close>

datatype card = SkeletonCard | NewsCard "news_item list" jsstring | ErrorCard jsstring

record card_element =
  element_id :: nat
  data_source :: string
  content :: card
  click_handlers :: nat

text \<open>
  \<open>requests\<close>: the URLs passed to \<open>fetch\<close> so far, oldest first. \<open>cards\<close>: the card
  elements attached to the document, in document order. \<open>next_id\<close>: the identity the next
  element created will get.
\<close>

record page =
  requests :: "jsstring list"
  cards :: "card_element list"
  next_id :: nat

text \<open>
  \<open>document.querySelector('[data-source="KEY"]')\<close>: the first attached card of that key.
  Source keys are those of the registry, plain identifiers, so that the attribute selector
  built from a key selects by equality on the attribute.
\<close>

definition querySelector_card :: "string \<Rightarrow> page \<Rightarrow> nat option" where
  "querySelector_card sourceKey st =
     map_option element_id (find (\<lambda>c. data_source c = sourceKey) (cards st))"

text \<open>
  A plain key: letters, digits, \<open>_\<close> and \<open>-\<close>. The source splices the key into the selector
  and into the markup of the card; for a plain key the selector is the attribute selector for
  that very value. Every key of the registry is plain, and the properties of
  \<open>fetchAndRenderSource\<close> below are stated for keys of the registry.
\<close>

definition plain_key :: "string \<Rightarrow> bool" where
  "plain_key sourceKey =
     (sourceKey \<noteq> [] \<and>
      list_all (\<lambda>c. c \<in> set ''abcdefghijklmnopqrstuvwxyzABCDEFGHIJKLMNOPQRSTUVWXYZ0123456789_-'')
        sourceKey)"

definition card_content :: "string \<Rightarrow> page \<Rightarrow> card option" where
  "card_content sourceKey st =
     map_option content (find (\<lambda>c. data_source c = sourceKey) (cards st))"

definition attached :: "nat \<Rightarrow> page \<Rightarrow> bool" where
  "attached el st = list_ex (\<lambda>c. element_id c = el) (cards st)"

text \<open>
  Replacing the element \<open>el\<close> of the document by a new card of \<open>sourceKey\<close>: the new
  element takes the place of the old one, has a fresh identity and no listeners.
\<close>

definition replace_card :: "nat \<Rightarrow> string \<Rightarrow> card \<Rightarrow> page \<Rightarrow> page" where
  "replace_card el sourceKey newCard st =
     st\<lparr>cards := map (\<lambda>c. if element_id c = el
                            then \<lparr>element_id = next_id st, data_source = sourceKey,
                                  content = newCard, click_handlers = 0\<rparr>
                            else c) (cards st),
        next_id := Suc (next_id st)\<rparr>"

text \<open>
  \<open>el.outerHTML = markup\<close>, where the markup is that of a card of \<open>sourceKey\<close>. An element
  in the document is replaced. An element that is no longer in the document has no
  parent: nothing changes, and an engine that raises does so with \<open>stale_write_error\<close>.
\<close>

definition stale_write_error :: "platform \<Rightarrow> js_error" where
  "stale_write_error env =
     Native ''NoModificationAllowedError'' (native_message env ''NoModificationAllowedError'')"

definition set_outerHTML ::
  "platform \<Rightarrow> nat \<Rightarrow> string \<Rightarrow> card \<Rightarrow> page \<Rightarrow> (js_error + unit) \<times> page" where
  "set_outerHTML env el sourceKey newCard st =
     (if attached el st then (Inr (), replace_card el sourceKey newCard st)
      else if detached_write_throws env then (Inl (stale_write_error env), st)
      else (Inr (), st))"

text \<open>
  \<open>initNewsItemClickHandlers\<close> looks the card up again by key and adds one click listener to
  each of its \<open>.news-item\<close> elements; skeleton rows carry that class too, an error card has
  none. \<open>click_handlers\<close> counts the listeners each item of the card has.
\<close>

fun has_news_items :: "card \<Rightarrow> bool" where
  "has_news_items SkeletonCard = True"
| "has_news_items (NewsCard items updateTime) = (items \<noteq> [])"
| "has_news_items (ErrorCard errorMsg) = False"

fun add_handlers :: "string \<Rightarrow> card_element list \<Rightarrow> card_element list" where
  "add_handlers sourceKey [] = []"
| "add_handlers sourceKey (c # cs) =
     (if data_source c = sourceKey
      then (if has_news_items (content c)
            then c\<lparr>click_handlers := Suc (click_handlers c)\<rparr> else c) # cs
      else c # add_handlers sourceKey cs)"

definition initNewsItemClickHandlers :: "string \<Rightarrow> page \<Rightarrow> page" where
  "initNewsItemClickHandlers sourceKey st = st\<lparr>cards := add_handlers sourceKey (cards st)\<rparr>"

section \<open>fetchRSS and fetchWithProxy\<close>

text \<open>
  How one call of \<open>fetchRSS\<close> ends when it is the \<open>n\<close>-th request: the rejection of \<open>fetch\<close>
  (a network failure, or the abort that the 8000 ms timer triggers) is rethrown, a status
  outside 200 to 299 (\<open>!response.ok\<close>) becomes an \<open>Error\<close>, and otherwise the outcome is
  that of reading the body.
\<close>

definition fetch_outcome :: "platform \<Rightarrow> nat \<Rightarrow> jsstring \<Rightarrow> js_error + jsstring" where
  "fetch_outcome env n url =
     (case fetch_response env n url of
        Rejected error \<Rightarrow> Inl error
      | Response status body \<Rightarrow>
          if \<not> (200 \<le> status \<and> status \<le> 299)
          then Inl (Error (ascii ''HTTP error! status: '' @ decimal status))
          else body)"

definition fetchRSS :: "platform \<Rightarrow> jsstring \<Rightarrow> page \<Rightarrow> (js_error + jsstring) \<times> page" where
  "fetchRSS env url st =
     (fetch_outcome env (length (requests st)) url, st\<lparr>requests := requests st @ [url]\<rparr>)"

definition CORS_PROXIES :: "jsstring list" where
  "CORS_PROXIES =
     [[], ascii ''https://api.allorigins.win/raw?url='', ascii ''https://corsproxy.io/?'']"

text \<open>Line 134: \<open>proxy ? proxy + encodeURIComponent(url) : url\<close>; the empty string is falsy.\<close>

definition fetchUrl :: "platform \<Rightarrow> jsstring \<Rightarrow> jsstring \<Rightarrow> js_error + jsstring" where
  "fetchUrl env proxy url =
     (if proxy \<noteq> [] then
        (case encodeURIComponent env url of
           Inl error \<Rightarrow> Inl error
         | Inr encoded \<Rightarrow> Inr (proxy @ encoded))
      else Inr url)"

text \<open>The \<open>for\<close> loop of lines 132 to 142 over the proxies still to try.\<close>

fun fetchWithProxy_loop ::
  "platform \<Rightarrow> jsstring \<Rightarrow> jsstring list \<Rightarrow> page \<Rightarrow> (js_error + jsstring) \<times> page" where
  "fetchWithProxy_loop env url [] st = (Inl (Error (ascii ''All proxies failed'')), st)"
| "fetchWithProxy_loop env url (proxy # rest) st =
     (case fetchUrl env proxy url of
        Inl error \<Rightarrow> fetchWithProxy_loop env url rest st
      | Inr target \<Rightarrow>
          (case fetchRSS env target st of
             (Inr result, st') \<Rightarrow> (Inr result, st')
           | (Inl error, st') \<Rightarrow> fetchWithProxy_loop env url rest st'))"

definition fetchWithProxy :: "platform \<Rightarrow> jsstring \<Rightarrow> page \<Rightarrow> (js_error + jsstring) \<times> page" where
  "fetchWithProxy env url st = fetchWithProxy_loop env url CORS_PROXIES st"

section \<open>fetchAndRenderSource\<close>

text \<open>
  The registry, reduced to what the resolver reads: each source key with its feed URLs in
  the declared order. The display name, icon, colour and tag of a source only enter the
  markup of its card.
\<close>

definition RSS_FEEDS :: "(string \<times> jsstring list) list" where
  "RSS_FEEDS =
     [(''bloomberg'', [ascii ''https://rsshub.app/bloomberg'',
                      ascii ''https://rsshub.app/bloomberg/markets'',
                      ascii ''https://feeds.bloomberg.com/markets/news.rss'']),
      (''reuters'', [ascii ''https://rsshub.app/reuters/world'',
                    ascii ''https://rsshub.app/reuters/theWire'',
                    ascii ''https://www.reutersagency.com/feed/?taxonomy=best-topics&post_type=best'']),
      (''ap'', [ascii ''https://rsshub.app/apnews/topics/apf-topnews'',
               ascii ''https://rsshub.app/apnews/topics/world-news'']),
      (''rfi'', [ascii ''https://rsshub.app/rfi/cn'',
                ascii ''https://www.rfi.fr/cn/rss'']),
      (''ft'', [ascii ''https://rsshub.app/ft/chinese/hotstoryby7day'',
               ascii ''https://rsshub.app/ft/chinese/news'']),
      (''wsj'', [ascii ''https://rsshub.app/wsj/en-us/world_news'',
                ascii ''https://feeds.a]dowjones.io/public/rss/RSSWorldNews'']),
      (''nikkei'', [ascii ''https://rsshub.app/nikkei/cn/top'',
                   ascii ''https://rsshub.app/nikkei/cn'']),
      (''zaobao'', [ascii ''https://rsshub.app/zaobao/realtime/china'',
                   ascii ''https://rsshub.app/zaobao/realtime/world''])]"

text \<open>
  Lines 369 to 378, one endpoint: fetch through the proxies, parse, refuse an empty list,
  and compute the update label from the first item. \<open>items[0]?.pubDate || new Date()\<close> is
  the first item's date: a \<open>Date\<close> object is truthy even when it is invalid. The
  synchronous code after the fetch reads the clock once.
\<close>

definition fetch_items ::
  "platform \<Rightarrow> jsstring \<Rightarrow> page \<Rightarrow> (js_error + news_item list \<times> jsstring) \<times> page" where
  "fetch_items env feedUrl st =
     (case fetchWithProxy env feedUrl st of
        (Inl error, st1) \<Rightarrow> (Inl error, st1)
      | (Inr xmlText, st1) \<Rightarrow>
          (let now = clock env (length (requests st1)) in
           case parseRSS env now xmlText of
             Inl error \<Rightarrow> (Inl error, st1)
           | Inr items \<Rightarrow>
               (case items of
                  [] \<Rightarrow> (Inl (Error (ascii ''No items found in feed'')), st1)
                | first # others \<Rightarrow>
                    (Inr (items, formatTimeAgo now (DateValue (pubDate first))), st1))))"

text \<open>
  The body of the \<open>try\<close> block, lines 368 to 388, for the card element \<open>cardElement\<close> found
  at the start: an exception anywhere in it, also one raised by the assignment to
  \<open>outerHTML\<close>, lands in the \<open>catch\<close>.
\<close>

definition try_feed ::
  "platform \<Rightarrow> string \<Rightarrow> nat \<Rightarrow> jsstring \<Rightarrow> page \<Rightarrow> (js_error + unit) \<times> page" where
  "try_feed env sourceKey cardElement feedUrl st =
     (case fetch_items env feedUrl st of
        (Inl error, st1) \<Rightarrow> (Inl error, st1)
      | (Inr (items, updateTime), st1) \<Rightarrow>
          (case set_outerHTML env cardElement sourceKey (NewsCard items updateTime) st1 of
             (Inl error, st2) \<Rightarrow> (Inl error, st2)
           | (Inr u, st2) \<Rightarrow> (Inr (), initNewsItemClickHandlers sourceKey st2)))"

text \<open>\<open>lastError?.message || 'Unknown error'\<close>: an empty message is falsy.\<close>

definition error_text :: "js_error option \<Rightarrow> jsstring" where
  "error_text lastError =
     (case lastError of
        None \<Rightarrow> ascii ''Unknown error''
      | Some error \<Rightarrow> if message error \<noteq> [] then message error else ascii ''Unknown error'')"

text \<open>
  Lines 366 to 400: the loop over the feed URLs still to try, then the error card. The
  exception of the last assignment is not caught: it leaves the function.
\<close>

fun feeds_loop ::
  "platform \<Rightarrow> string \<Rightarrow> nat \<Rightarrow> jsstring list \<Rightarrow> js_error option \<Rightarrow> page
     \<Rightarrow> (js_error + bool) \<times> page" where
  "feeds_loop env sourceKey cardElement [] lastError st =
     (case set_outerHTML env cardElement sourceKey (ErrorCard (error_text lastError)) st of
        (Inl error, st') \<Rightarrow> (Inl error, st')
      | (Inr u, st') \<Rightarrow> (Inr False, st'))"
| "feeds_loop env sourceKey cardElement (feedUrl # rest) lastError st =
     (case try_feed env sourceKey cardElement feedUrl st of
        (Inr u, st') \<Rightarrow> (Inr True, st')
      | (Inl error, st') \<Rightarrow> feeds_loop env sourceKey cardElement rest (Some error) st')"

text \<open>
  Lines 357 to 401. \<open>RSS_FEEDS[sourceKey]\<close> is \<open>undefined\<close> for a key the registry does not
  have, and reading \<open>config.feeds\<close> then raises a \<open>TypeError\<close>, after the test for the card.
  The result is the boolean the function returns, or the exception its promise is
  rejected with.
\<close>

definition fetchAndRenderSource ::
  "platform \<Rightarrow> string \<Rightarrow> page \<Rightarrow> (js_error + bool) \<times> page" where
  "fetchAndRenderSource env sourceKey st =
     (case querySelector_card sourceKey st of
        None \<Rightarrow> (Inr False, st)
      | Some cardElement \<Rightarrow>
          (case map_of RSS_FEEDS sourceKey of
             None \<Rightarrow> (Inl (Native ''TypeError'' (native_message env ''TypeError'')), st)
           | Some feeds \<Rightarrow> feeds_loop env sourceKey cardElement feeds None st))"

section \<open>Attempts and their outcomes\<close>

text \<open>
  The URLs that \<open>fetchWithProxy\<close> may request for \<open>url\<close>, one for each access strategy in
  the declared order. A strategy whose URL cannot be built, because \<open>encodeURIComponent\<close>
  raises, is skipped without a request.
\<close>

definition strategy_urls_of :: "platform \<Rightarrow> jsstring \<Rightarrow> jsstring list \<Rightarrow> jsstring list" where
  "strategy_urls_of env url proxies =
     concat (map (\<lambda>proxy. case fetchUrl env proxy url of
                              Inl error \<Rightarrow> []
                            | Inr target \<Rightarrow> [target]) proxies)"

definition strategy_urls :: "platform \<Rightarrow> jsstring \<Rightarrow> jsstring list" where
  "strategy_urls env url = strategy_urls_of env url CORS_PROXIES"

text \<open>
  How each of the requests for \<open>urls\<close> ends when they are issued one after the other and
  the first of them is request number \<open>n\<close>.
\<close>

fun outcomes :: "platform \<Rightarrow> nat \<Rightarrow> jsstring list \<Rightarrow> (js_error + jsstring) list" where
  "outcomes env n [] = []"
| "outcomes env n (u # us) = fetch_outcome env n u # outcomes env (Suc n) us"

text \<open>
  What each endpoint of \<open>feeds\<close> yields when the endpoints are tried one after the other
  from the page \<open>st\<close>: the error of the attempt, or the non-empty item list with its update
  label.
\<close>

fun endpoint_outcomes ::
  "platform \<Rightarrow> jsstring list \<Rightarrow> page \<Rightarrow> (js_error + news_item list \<times> jsstring) list" where
  "endpoint_outcomes env [] st = []"
| "endpoint_outcomes env (feedUrl # rest) st =
     fst (fetch_items env feedUrl st) # endpoint_outcomes env rest (snd (fetch_items env feedUrl st))"

text \<open>
  An endpoint yields when the fetch through the proxies returns a body and \<open>parseRSS\<close>
  returns a non-empty item list for it. \<open>some_endpoint_yields\<close>: some endpoint of \<open>feeds\<close>
  yields when the endpoints are tried one after the other from the page \<open>st\<close>, each on the
  page the fetches before it have left.
\<close>

definition endpoint_yields :: "platform \<Rightarrow> jsstring \<Rightarrow> page \<Rightarrow> bool" where
  "endpoint_yields env feedUrl st =
     (case fetchWithProxy env feedUrl st of
        (Inl error, st1) \<Rightarrow> False
      | (Inr xmlText, st1) \<Rightarrow>
          (case parseRSS env (clock env (length (requests st1))) xmlText of
             Inl error \<Rightarrow> False
           | Inr items \<Rightarrow> items \<noteq> []))"

fun some_endpoint_yields :: "platform \<Rightarrow> jsstring list \<Rightarrow> page \<Rightarrow> bool" where
  "some_endpoint_yields env [] st = False"
| "some_endpoint_yields env (feedUrl # rest) st =
     (endpoint_yields env feedUrl st \<or>
      some_endpoint_yields env rest (snd (fetchWithProxy env feedUrl st)))"

text \<open>
  Overlapping resolutions. The script runs on one thread: an \<open>async\<close> function runs
  without interruption between two \<open>await\<close>s. \<open>fetchAndRenderSource\<close> reads the document
  once, when it starts and finds its card element, and writes to it only after its last
  fetch has ended; in between it touches the network alone. So what two overlapping
  resolutions of one source do to the document is what their loops, each with the element
  it found at its start, do one after the other in the order in which they complete:
  \<open>feeds_loop\<close> for the resolution that completes second runs on the page the first one
  left.

  \<open>page_ok\<close>: the identities in the document are older than the next fresh one.
  \<open>shown\<close>: what the document shows, the cards with their identity, key and content,
  without the count of listeners.
\<close>

definition page_ok :: "page \<Rightarrow> bool" where
  "page_ok st = list_all (\<lambda>c. element_id c < next_id st) (cards st)"

definition shown :: "page \<Rightarrow> (nat \<times> string \<times> card) list" where
  "shown st = map (\<lambda>c. (element_id c, data_source c, content c)) (cards st)"

section \<open>Sample inputs\<close>

text \<open>
  A feed of RSS 2.0 items that carry a title only, and a platform whose XML parser returns
  a given document, whose network is down and whose \<open>Date\<close> constructor accepts one ISO
  string. They instantiate the theorems below at concrete inputs.
\<close>

definition feed_item :: "string \<Rightarrow> node" where
  "feed_item t = Element ''item'' [] [Element ''title'' [] [Text (ascii t)]]"

definition rss_feed :: "node list \<Rightarrow> node" where
  "rss_feed es = Element ''rss'' [] [Element ''channel'' [] es]"

definition test_platform :: "node \<Rightarrow> platform" where
  "test_platform doc =
     \<lparr>fetch_response = (\<lambda>n u. Rejected (Native ''TypeError'' (ascii ''Failed to fetch''))),
      encodeURIComponent = Inr,
      parseFromString = (\<lambda>s. doc),
      Date_parse = (\<lambda>s. if s = ascii ''1970-01-01T00:00:00.000Z'' then Date 0 else Invalid_Date),
      clock = (\<lambda>n. 0),
      detached_write_throws = False,
      native_message = (\<lambda>n. [])\<rparr>"

definition dated_item :: "string \<Rightarrow> string \<Rightarrow> node" where
  "dated_item t d =
     Element ''item'' [] [Element ''title'' [] [Text (ascii t)],
                          Element ''pubDate'' [] [Text (ascii d)]]"

definition http_500_platform :: "node \<Rightarrow> platform" where
  "http_500_platform doc = (test_platform doc)\<lparr>fetch_response := (\<lambda>n u. Response 500 (Inr []))\<rparr>"

definition second_try_platform :: "node \<Rightarrow> jsstring \<Rightarrow> platform" where
  "second_try_platform doc body =
     (test_platform doc)\<lparr>fetch_response :=
        (\<lambda>n u. if n = 1 then Response 200 (Inr body)
               else Rejected (Native ''TypeError'' (ascii ''Failed to fetch'')))\<rparr>"

definition empty_page :: page where
  "empty_page = \<lparr>requests = [], cards = [], next_id = 0\<rparr>"

definition online_platform :: "node \<Rightarrow> jsstring \<Rightarrow> platform" where
  "online_platform doc body = (test_platform doc)\<lparr>fetch_response := (\<lambda>n u. Response 200 (Inr body))\<rparr>"

definition skeleton_page :: "string \<Rightarrow> page" where
  "skeleton_page sourceKey =
     \<lparr>requests = [],
      cards = [\<lparr>element_id = 0, data_source = sourceKey, content = SkeletonCard, click_handlers = 0\<rparr>],
      next_id = 1\<rparr>"

definition ap_feeds :: "jsstring list" where
  "ap_feeds = [ascii ''https://rsshub.app/apnews/topics/apf-topnews'',
               ascii ''https://rsshub.app/apnews/topics/world-news'']"

definition headline :: "string \<Rightarrow> news_item" where
  "headline t = \<lparr>title = ascii t, link = [], description = [], pubDate = Date 0, isHot = True\<rparr>"

text \<open>
  A browser for the samples that resolve a source. Its XML parser knows the two feed texts
  \<open>feed_text ''A''\<close> and \<open>feed_text ''B''\<close>, each with one titled item, and reports a
  parse error for any other text; its network either serves one of the texts for every
  request or is down; \<open>raises\<close> says whether a write through a replaced element raises.
  \<open>stale_page\<close> is the page with the card of \<open>ap\<close> after the card element 0 has been
  replaced by a new skeleton, as line 411 of \<open>retryFeed\<close> does.
\<close>

definition feed_text :: "string \<Rightarrow> jsstring" where
  "feed_text t = ascii (''<rss><channel><item><title>'' @ t @ ''</title></item></channel></rss>'')"

definition sample_parser :: "jsstring \<Rightarrow> node" where
  "sample_parser xmlText =
     (if xmlText = feed_text ''A'' then rss_feed [feed_item ''A'']
      else if xmlText = feed_text ''B'' then rss_feed [feed_item ''B'']
      else Element ''parsererror'' [] [])"

definition serving :: "string \<Rightarrow> nat \<Rightarrow> jsstring \<Rightarrow> fetch_result" where
  "serving t = (\<lambda>n url. Response 200 (Inr (feed_text t)))"

definition offline :: "nat \<Rightarrow> jsstring \<Rightarrow> fetch_result" where
  "offline = (\<lambda>n url. Rejected (Native ''TypeError'' (ascii ''Failed to fetch'')))"

definition browser :: "(nat \<Rightarrow> jsstring \<Rightarrow> fetch_result) \<Rightarrow> bool \<Rightarrow> platform" where
  "browser network raises =
     \<lparr>fetch_response = network,
      encodeURIComponent = Inr,
      parseFromString = sample_parser,
      Date_parse = (\<lambda>s. if s = ascii ''1970-01-01T00:00:00.000Z'' then Date 0 else Invalid_Date),
      clock = (\<lambda>n. 0),
      detached_write_throws = raises,
      native_message = (\<lambda>name. ascii ''This element has no parent node.'')\<rparr>"

definition stale_page :: page where
  "stale_page = replace_card 0 ''ap'' SkeletonCard (skeleton_page ''ap'')"

section \<open>Properties of parseRSS\<close>

lemma entry_callback_acc:
  "entry_callback env now e j acc = acc @ entry_callback env now e j []"
  by (simp add: entry_callback_def)

lemma forEach_entry_callback:
  "forEach (entry_callback env now) es i acc =
     acc @ concat (map (\<lambda>(j, e). entry_callback env now e j []) (enumerate i es))"
proof (induction es arbitrary: i acc)
  case Nil
  show ?case by simp
next
  case (Cons e es)
  have "forEach (entry_callback env now) (e # es) i acc =
        forEach (entry_callback env now) es (Suc i) (entry_callback env now e i acc)"
    by simp
  also have "\<dots> = entry_callback env now e i acc @
        concat (map (\<lambda>(j, e). entry_callback env now e j []) (enumerate (Suc i) es))"
    by (rule Cons.IH)
  also have "\<dots> = acc @ entry_callback env now e i [] @
        concat (map (\<lambda>(j, e). entry_callback env now e j []) (enumerate (Suc i) es))"
    by (subst entry_callback_acc) simp
  finally show ?case by simp
qed

text \<open>Entries at raw position 8 or later push nothing.\<close>

lemma callbacks_window:
  "concat (map (\<lambda>(j, e). entry_callback env now e j []) ps) =
     map (\<lambda>(j, e). entry_item env now e j)
       (filter (\<lambda>(j, e). entry_title e \<noteq> []) (filter (\<lambda>(j, e). j < 8) ps))"
proof (induction ps)
  case Nil
  show ?case by simp
next
  case (Cons p ps)
  obtain j e where p: "p = (j, e)" by (cases p)
  have "entry_callback env now e j [] =
        (if j < 8 \<and> entry_title e \<noteq> [] then [entry_item env now e j] else [])"
    by (simp add: entry_callback_def)
  with Cons.IH p show ?case by simp
qed

lemma filter_enumerate_take:
  "filter (\<lambda>(j, e). j < n + k) (enumerate n es) = enumerate n (take k es)"
proof (induction es arbitrary: n k)
  case Nil
  show ?case by simp
next
  case (Cons e es)
  show ?case
  proof (cases k)
    case 0
    have "\<forall>p \<in> set (enumerate n (e # es)). \<not> (case p of (j, e) \<Rightarrow> j < n)"
      by (auto simp: in_set_enumerate_eq)
    then have "filter (\<lambda>(j, e). j < n) (enumerate n (e # es)) = []"
      by (simp only: filter_False)
    with 0 show ?thesis by simp
  next
    case (Suc k')
    have "filter (\<lambda>(j, e). j < Suc n + k') (enumerate (Suc n) es) = enumerate (Suc n) (take k' es)"
      by (rule Cons.IH)
    with Suc show ?thesis by simp
  qed
qed

lemma forEach_items:
  "forEach (entry_callback env now) es 0 [] =
     map (\<lambda>(j, e). entry_item env now e j)
       (filter (\<lambda>(j, e). entry_title e \<noteq> []) (enumerate 0 (take 8 es)))"
proof -
  have "filter (\<lambda>(j, e). j < 0 + 8) (enumerate 0 es) = enumerate 0 (take 8 es)"
    by (rule filter_enumerate_take)
  then show ?thesis
    by (simp add: forEach_entry_callback callbacks_window)
qed

lemma parseRSS_items:
  assumes "doc_querySelector [''parsererror''] (parseFromString env xmlText) = None"
  shows "parseRSS env now xmlText =
     Inr (map (\<lambda>(j, e). entry_item env now e j)
       (filter (\<lambda>(j, e). entry_title e \<noteq> [])
          (enumerate 0 (take 8 (itemElements (parseFromString env xmlText))))))"
  using assms by (simp add: parseRSS_def Let_def forEach_items)

lemma parseRSS_Inr_wellformed:
  "parseRSS env now xmlText = Inr items \<Longrightarrow>
     doc_querySelector [''parsererror''] (parseFromString env xmlText) = None"
  by (auto simp: parseRSS_def Let_def split: option.splits)


lemmas fixture_defs = test_platform_def rss_feed_def feed_item_def
lemmas parse_defs = parseRSS_def doc_querySelector_def doc_querySelectorAll_def itemElements_def
  entry_callback_def entry_item_def entry_title_def entry_link_def entry_description_def
  entry_pubDate_def querySelector_def ascii_def trim_def is_space_def unwrap_cdata_def
  cdata_open_def cdata_close_def ranked_def Let_def

lemma length8_list:
  "length xs = 8 \<Longrightarrow> \<exists>a b c d e f g h. xs = [a, b, c, d, e, f, g, h]"
  by (auto simp: eval_nat_numeral length_Suc_conv)

text \<open>
  Claim C4. \<open>parseRSS\<close> never returns more than 8 items, and the window of 8 is taken over
  the raw entries in document order: the number of items is the number of entries with a
  non-empty title among the first 8 raw entries. When there are at least 8 raw entries and
  the first 8 all have a title (10 valid RSS 2.0 items, say), exactly 8 items come back,
  at ranks 0 to 7, and \<open>isHot\<close> holds at ranks 0 to 2 only. A payload with 8 or more raw
  entries can give fewer than 8 items.
\<close>

theorem parseRSS_window:
  assumes "parseRSS env now xmlText = Inr items"
  shows "length items \<le> 8 \<and>
         length items = length (filter (\<lambda>e. entry_title e \<noteq> [])
                                  (take 8 (itemElements (parseFromString env xmlText)))) \<and>
         (8 \<le> length (itemElements (parseFromString env xmlText)) \<and>
          list_all (\<lambda>e. entry_title e \<noteq> []) (take 8 (itemElements (parseFromString env xmlText)))
          \<longrightarrow> length items = 8 \<and>
              items = map (\<lambda>(j, e). entry_item env now e j)
                          (enumerate 0 (take 8 (itemElements (parseFromString env xmlText)))) \<and>
              map fst (ranked items) = [0, 1, 2, 3, 4, 5, 6, 7] \<and>
              map (isHot \<circ> snd) (ranked items) =
                [True, True, True, False, False, False, False, False]) \<and>
         (\<exists>env' xmlText' items'. parseRSS env' 0 xmlText' = Inr items' \<and>
              8 \<le> length (itemElements (parseFromString env' xmlText')) \<and> length items' < 8)"
proof -
  let ?es = "take 8 (itemElements (parseFromString env xmlText))"
  have wf: "doc_querySelector [''parsererror''] (parseFromString env xmlText) = None"
    using assms by (rule parseRSS_Inr_wellformed)
  have items: "items = map (\<lambda>(j, e). entry_item env now e j)
                 (filter (\<lambda>(j, e). entry_title e \<noteq> []) (enumerate 0 ?es))"
    using parseRSS_items [OF wf, of now] assms by simp
  have filt: "filter (\<lambda>(j, e). entry_title e \<noteq> []) (enumerate n es) =
              enumerate n es" if "list_all (\<lambda>e. entry_title e \<noteq> []) es" for n es
    using that by (induction es arbitrary: n) auto
  have len_filter: "length (filter (\<lambda>(j, e). entry_title e \<noteq> []) (enumerate n es)) =
                    length (filter (\<lambda>e. entry_title e \<noteq> []) es)" for n es
    by (induction es arbitrary: n) auto
  have len: "length items = length (filter (\<lambda>e. entry_title e \<noteq> []) ?es)"
    by (simp add: items len_filter)
  have "length (filter (\<lambda>e. entry_title e \<noteq> []) ?es) \<le> length ?es"
    by (rule length_filter_le)
  then have le8: "length items \<le> 8"
    using len by simp
  have full: "length items = 8 \<and> items = map (\<lambda>(j, e). entry_item env now e j) (enumerate 0 ?es) \<and>
              map fst (ranked items) = [0, 1, 2, 3, 4, 5, 6, 7] \<and>
              map (isHot \<circ> snd) (ranked items) =
                [True, True, True, False, False, False, False, False]"
    if big: "8 \<le> length (itemElements (parseFromString env xmlText))"
    and all: "list_all (\<lambda>e. entry_title e \<noteq> []) ?es"
  proof -
    have eq: "items = map (\<lambda>(j, e). entry_item env now e j) (enumerate 0 ?es)"
      using items filt [OF all] by simp
    have l8: "length ?es = 8" using big by simp
    from length8_list [OF l8] obtain a b c d e f g h where es: "?es = [a, b, c, d, e, f, g, h]"
      by blast
    show ?thesis
      unfolding eq es by (simp add: ranked_def enumerate_eq_zip entry_item_def upt_rec)
  qed
  have ex: "\<exists>env' xmlText' items'. parseRSS env' 0 xmlText' = Inr items' \<and>
              8 \<le> length (itemElements (parseFromString env' xmlText')) \<and> length items' < 8"
  proof (intro exI conjI)
    let ?doc = "rss_feed [feed_item ''a'', feed_item '' '', feed_item ''c'', feed_item ''d'',
                  feed_item ''e'', feed_item ''f'', feed_item ''g'', feed_item ''h'', feed_item ''i'']"
    show "parseRSS (test_platform ?doc) 0 [] =
          Inr (map (\<lambda>t. \<lparr>title = ascii t, link = [], description = [], pubDate = Date 0,
                         isHot = (t = ''a'' \<or> t = ''c'')\<rparr>) [''a'', ''c'', ''d'', ''e'', ''f'', ''g'', ''h''])"
      by (simp add: fixture_defs parse_defs)
    show "8 \<le> length (itemElements (parseFromString (test_platform ?doc) []))"
      by (simp add: fixture_defs parse_defs)
    show "length (map (\<lambda>t. \<lparr>title = ascii t, link = [], description = [], pubDate = Date 0,
                         isHot = (t = ''a'' \<or> t = ''c'')\<rparr>) [''a'', ''c'', ''d'', ''e'', ''f'', ''g'', ''h'']) < 8"
      by simp
  qed
  from le8 len full ex show ?thesis by blast
qed



lemma descendants_feed_item:
  "descendants (feed_item t) = [Element ''title'' [] [Text (ascii t)], Text (ascii t)]"
  by (simp add: feed_item_def)

lemma rss_feed_elements:
  "rss_feed (map feed_item ts) # descendants (rss_feed (map feed_item ts)) =
     rss_feed (map feed_item ts) # Element ''channel'' [] (map feed_item ts) #
       concat (map (\<lambda>t. [feed_item t, Element ''title'' [] [Text (ascii t)], Text (ascii t)]) ts)"
  by (simp add: rss_feed_def descendants_feed_item comp_def)

lemma rss_feed_wellformed:
  "doc_querySelector [''parsererror''] (parseFromString (test_platform (rss_feed (map feed_item ts))) xmlText)
     = None"
proof -
  have "find (matches [''parsererror''])
          (concat (map (\<lambda>t. [feed_item t, Element ''title'' [] [Text (ascii t)], Text (ascii t)]) ts)) = None"
    by (induction ts) (simp_all add: feed_item_def)
  then show ?thesis
    by (simp add: doc_querySelector_def test_platform_def rss_feed_elements) (simp add: rss_feed_def)
qed

lemma rss_feed_itemElements:
  "itemElements (parseFromString (test_platform (rss_feed (map feed_item ts))) xmlText) =
     map feed_item ts"
proof -
  have items: "filter (matches [''item''])
          (concat (map (\<lambda>t. [feed_item t, Element ''title'' [] [Text (ascii t)], Text (ascii t)]) ts)) =
        map feed_item ts"
    by (induction ts) (simp_all add: feed_item_def)
  have entries: "filter (matches [''entry''])
          (concat (map (\<lambda>t. [feed_item t, Element ''title'' [] [Text (ascii t)], Text (ascii t)]) ts)) = []"
    by (induction ts) (simp_all add: feed_item_def)
  have a: "doc_querySelectorAll [''item''] (rss_feed (map feed_item ts)) = map feed_item ts"
    unfolding doc_querySelectorAll_def rss_feed_elements
    by (simp add: items) (simp add: rss_feed_def)
  have b: "doc_querySelectorAll [''entry''] (rss_feed (map feed_item ts)) = []"
    unfolding doc_querySelectorAll_def rss_feed_elements
    by (simp add: entries) (simp add: rss_feed_def)
  from a b show ?thesis
    by (cases ts) (simp_all add: itemElements_def test_platform_def)
qed

lemma entry_title_feed_item:
  "entry_title (feed_item t) = trim (unwrap_cdata (trim (ascii t)))"
  by (simp add: entry_title_def querySelector_def descendants_feed_item)


lemma list_all_take: "list_all P xs \<Longrightarrow> list_all P (take n xs)"
  by (induction xs arbitrary: n) (auto simp: take_Cons split: nat.splits)

theorem parseRSS_window_witness:
  "\<exists>items. parseRSS (test_platform (rss_feed (map feed_item
        [''a'', ''b'', ''c'', ''d'', ''e'', ''f'', ''g'', ''h'', ''i'', ''j'']))) 0 [] = Inr items \<and>
     length items = 8 \<and>
     map fst (ranked items) = [0, 1, 2, 3, 4, 5, 6, 7] \<and>
     map (isHot \<circ> snd) (ranked items) = [True, True, True, False, False, False, False, False]"
proof -
  define ts where "ts = [''a'', ''b'', ''c'', ''d'', ''e'', ''f'', ''g'', ''h'', ''i'', ''j'']"
  define env where "env = test_platform (rss_feed (map feed_item ts))"
  define items where "items = map (\<lambda>(j, e). entry_item env 0 e j)
       (filter (\<lambda>(j, e). entry_title e \<noteq> [])
          (enumerate 0 (take 8 (itemElements (parseFromString env [])))))"
  have run: "parseRSS env 0 [] = Inr items"
    unfolding items_def env_def by (rule parseRSS_items [OF rss_feed_wellformed])
  have entries: "itemElements (parseFromString env []) = map feed_item ts"
    unfolding env_def by (rule rss_feed_itemElements)
  have big: "8 \<le> length (itemElements (parseFromString env []))"
    unfolding entries by (simp add: ts_def)
  have "list_all (\<lambda>t. trim (unwrap_cdata (trim (ascii t))) \<noteq> []) ts"
    unfolding ts_def
    by (simp add: ascii_def trim_def is_space_def unwrap_cdata_def cdata_open_def Let_def)
  then have "list_all (\<lambda>e. entry_title e \<noteq> []) (map feed_item ts)"
    by (simp add: list_all_iff entry_title_feed_item)
  then have titles: "list_all (\<lambda>e. entry_title e \<noteq> []) (take 8 (itemElements (parseFromString env [])))"
    unfolding entries by (rule list_all_take)
  note w = parseRSS_window [OF run]
  note c = w [THEN conjunct2, THEN conjunct2, THEN conjunct1, THEN mp, OF conjI [OF big titles]]
  have main: "parseRSS env 0 [] = Inr items \<and> length items = 8 \<and>
     map fst (ranked items) = [0, 1, 2, 3, 4, 5, 6, 7] \<and>
     map (isHot \<circ> snd) (ranked items) = [True, True, True, False, False, False, False, False]"
    by (intro conjI run c [THEN conjunct1] c [THEN conjunct2, THEN conjunct2, THEN conjunct1]
          c [THEN conjunct2, THEN conjunct2, THEN conjunct2])
  show ?thesis
    by (rule exI [of _ items], rule main [unfolded env_def ts_def])
qed

text \<open>
  Claim C1. The claim has \<open>isHot\<close> follow the rank of an item among the items kept. The
  code computes it from the raw position of the entry (\<open>index < 3\<close>, with the comment
  "Mark first 3 as hot"): on a payload of 5 entries whose entry 2 has an empty title, 4 items
  come back at ranks 0 to 3, and the item at rank 2, raw entry 3, is not hot. Only two
  items are marked, not the first three.
\<close>

theorem parseRSS_isHot_raw_position:
  assumes "parseRSS env now xmlText = Inr items"
    and "itemElements (parseFromString env xmlText) = [e0, e1, e2, e3, e4]"
    and "entry_title e0 \<noteq> []" and "entry_title e1 \<noteq> []" and "entry_title e2 = []"
    and "entry_title e3 \<noteq> []" and "entry_title e4 \<noteq> []"
  shows "map title items = [entry_title e0, entry_title e1, entry_title e3, entry_title e4] \<and>
         map fst (ranked items) = [0, 1, 2, 3] \<and>
         map (isHot \<circ> snd) (ranked items) = [True, True, False, False]"
proof -
  have wf: "doc_querySelector [''parsererror''] (parseFromString env xmlText) = None"
    using assms(1) by (rule parseRSS_Inr_wellformed)
  have window: "enumerate 0 (take 8 [e0, e1, e2, e3, e4]) =
                  [(0, e0), (1, e1), (2, e2), (3, e3), (4, e4)]"
    by simp
  have kept: "filter (\<lambda>(j, e). entry_title e \<noteq> []) [(0::nat, e0), (1, e1), (2, e2), (3, e3), (4, e4)] =
                [(0, e0), (1, e1), (3, e3), (4, e4)]"
    using assms(3-7) by simp
  have "parseRSS env now xmlText = Inr (map (\<lambda>(j, e). entry_item env now e j)
                 [(0, e0), (1, e1), (3, e3), (4, e4)])"
    using parseRSS_items [OF wf, of now] unfolding assms(2) window kept .
  then have "items = [entry_item env now e0 0, entry_item env now e1 1,
                 entry_item env now e3 3, entry_item env now e4 4]"
    unfolding assms(1) by simp
  then show ?thesis
    by (simp add: ranked_def entry_item_def)
qed

theorem parseRSS_isHot_raw_position_witness:
  "\<exists>items. parseRSS (test_platform (rss_feed (map feed_item
        [''A'', ''B'', '' '', ''D'', ''E'']))) 0 [] = Inr items \<and>
     map title items = [ascii ''A'', ascii ''B'', ascii ''D'', ascii ''E''] \<and>
     map fst (ranked items) = [0, 1, 2, 3] \<and>
     map (isHot \<circ> snd) (ranked items) = [True, True, False, False]"
proof -
  define ts where "ts = [''A'', ''B'', '' '', ''D'', ''E'']"
  define env where "env = test_platform (rss_feed (map feed_item ts))"
  define items where "items = map (\<lambda>(j, e). entry_item env 0 e j)
       (filter (\<lambda>(j, e). entry_title e \<noteq> [])
          (enumerate 0 (take 8 (itemElements (parseFromString env [])))))"
  have run: "parseRSS env 0 [] = Inr items"
    unfolding items_def env_def by (rule parseRSS_items [OF rss_feed_wellformed])
  have entries: "itemElements (parseFromString env []) =
      [feed_item ''A'', feed_item ''B'', feed_item '' '', feed_item ''D'', feed_item ''E'']"
    unfolding env_def using rss_feed_itemElements [of ts "[]"] by (simp add: ts_def)
  have t: "entry_title (feed_item ''A'') = ascii ''A''" "entry_title (feed_item ''B'') = ascii ''B''"
    "entry_title (feed_item '' '') = []" "entry_title (feed_item ''D'') = ascii ''D''"
    "entry_title (feed_item ''E'') = ascii ''E''"
    by (simp_all add: entry_title_feed_item ascii_def trim_def is_space_def unwrap_cdata_def
          cdata_open_def Let_def)
  have ne: "ascii ''A'' \<noteq> []" "ascii ''B'' \<noteq> []" "ascii ''D'' \<noteq> []" "ascii ''E'' \<noteq> []"
    by (simp_all add: ascii_def)
  have "map title items = [entry_title (feed_item ''A''), entry_title (feed_item ''B''),
           entry_title (feed_item ''D''), entry_title (feed_item ''E'')] \<and>
        map fst (ranked items) = [0, 1, 2, 3] \<and>
        map (isHot \<circ> snd) (ranked items) = [True, True, False, False]"
    by (rule parseRSS_isHot_raw_position [OF run entries]) (simp_all only: t ne not_False_eq_True)
  then have main: "parseRSS env 0 [] = Inr items \<and>
     map title items = [ascii ''A'', ascii ''B'', ascii ''D'', ascii ''E''] \<and>
     map fst (ranked items) = [0, 1, 2, 3] \<and>
     map (isHot \<circ> snd) (ranked items) = [True, True, False, False]"
    unfolding t by (intro conjI run) (erule conjunct1, erule conjunct2 [THEN conjunct1],
      erule conjunct2 [THEN conjunct2])
  show ?thesis
    by (rule exI [of _ items], rule main [unfolded env_def ts_def])
qed

lemma parseRSS_member:
  assumes "parseRSS env now xmlText = Inr items"
    and "j < 8" and "j < length (itemElements (parseFromString env xmlText))"
    and "entry_title (itemElements (parseFromString env xmlText) ! j) \<noteq> []"
  shows "entry_item env now (itemElements (parseFromString env xmlText) ! j) j \<in> set items"
proof -
  let ?es = "itemElements (parseFromString env xmlText)"
  have wf: "doc_querySelector [''parsererror''] (parseFromString env xmlText) = None"
    using assms(1) by (rule parseRSS_Inr_wellformed)
  have items: "items = map (\<lambda>(j, e). entry_item env now e j)
                 (filter (\<lambda>(j, e). entry_title e \<noteq> []) (enumerate 0 (take 8 ?es)))"
    using parseRSS_items [OF wf, of now] assms(1) by simp
  have "(j, ?es ! j) \<in> set (enumerate 0 (take 8 ?es))"
    using assms(2,3) by (simp add: in_set_enumerate_eq)
  then have "(j, ?es ! j) \<in> set (filter (\<lambda>(j, e). entry_title e \<noteq> []) (enumerate 0 (take 8 ?es)))"
    using assms(4) by simp
  then have "(\<lambda>(j, e). entry_item env now e j) (j, ?es ! j) \<in> set items"
    unfolding items set_map by (rule imageI)
  then show ?thesis by simp
qed

lemma parseRSS_missing_date:
  assumes "parseRSS env now xmlText = Inr items"
    and "j < 8" and "j < length (itemElements (parseFromString env xmlText))"
    and "itemElements (parseFromString env xmlText) ! j = item"
    and "entry_title item \<noteq> []"
    and "querySelector [''pubDate'', ''published'', ''updated'', ''date''] item = None"
  shows "entry_item env now item j \<in> set items \<and>
         pubDate (entry_item env now item j) = Date now"
proof -
  have "entry_item env now item j \<in> set items"
    using parseRSS_member [OF assms(1-3)] assms(4,5) by simp
  moreover have "pubDate (entry_item env now item j) = Date now"
    using assms(6) by (simp add: entry_item_def entry_pubDate_def)
  ultimately show ?thesis by simp
qed

text \<open>
  Claim C2. An entry without a date element gets the time of the parse
  (\<open>parseRSS_missing_date\<close>). An entry whose date element holds text that the \<open>Date\<close>
  constructor cannot parse does not: the constructor returns an Invalid Date instead of
  raising, the \<open>try\<close>/\<open>catch\<close> of lines 194 to 196 that was to keep the default never
  fires, and the item's \<open>pubDate\<close> is the Invalid Date.
\<close>

theorem parseRSS_unparseable_date:
  assumes "parseRSS env now xmlText = Inr items"
    and "j < 8" and "j < length (itemElements (parseFromString env xmlText))"
    and "itemElements (parseFromString env xmlText) ! j = item"
    and "entry_title item \<noteq> []"
    and "querySelector [''pubDate'', ''published'', ''updated'', ''date''] item = Some pubDateEl"
    and "Date_parse env (textContent pubDateEl) = Invalid_Date"
  shows "entry_item env now item j \<in> set items \<and>
         pubDate (entry_item env now item j) = Invalid_Date \<and>
         pubDate (entry_item env now item j) \<noteq> Date now"
proof -
  have "entry_item env now item j \<in> set items"
    using parseRSS_member [OF assms(1-3)] assms(4,5) by simp
  moreover have "pubDate (entry_item env now item j) = Invalid_Date"
    using assms(6,7) by (simp add: entry_item_def entry_pubDate_def)
  ultimately show ?thesis by simp
qed

theorem parseRSS_unparseable_date_witness:
  "\<exists>items it. parseRSS (test_platform (rss_feed [dated_item ''A'' ''not a date''])) 1000 [] = Inr items \<and>
     it \<in> set items \<and> title it = ascii ''A'' \<and> pubDate it = Invalid_Date \<and> pubDate it \<noteq> Date 1000"
proof -
  define env where "env = test_platform (rss_feed [dated_item ''A'' ''not a date''])"
  define item where "item = dated_item ''A'' ''not a date''"
  define items where "items = map (\<lambda>(j, e). entry_item env 1000 e j)
       (filter (\<lambda>(j, e). entry_title e \<noteq> [])
          (enumerate 0 (take 8 (itemElements (parseFromString env [])))))"
  have wf: "doc_querySelector [''parsererror''] (parseFromString env []) = None"
    by (simp add: env_def fixture_defs dated_item_def doc_querySelector_def)
  have run: "parseRSS env 1000 [] = Inr items"
    unfolding items_def by (rule parseRSS_items [OF wf])
  have entries: "itemElements (parseFromString env []) = [item]"
    by (simp add: env_def item_def fixture_defs dated_item_def itemElements_def doc_querySelectorAll_def)
  have t: "entry_title item = ascii ''A''"
    by (simp add: item_def dated_item_def entry_title_def querySelector_def ascii_def trim_def
          is_space_def unwrap_cdata_def cdata_open_def Let_def)
  have el: "querySelector [''pubDate'', ''published'', ''updated'', ''date''] item =
              Some (Element ''pubDate'' [] [Text (ascii ''not a date'')])"
    by (simp add: item_def dated_item_def querySelector_def)
  have bad: "Date_parse env (textContent (Element ''pubDate'' [] [Text (ascii ''not a date'')])) = Invalid_Date"
    by (simp add: env_def test_platform_def ascii_def)
  have ne: "entry_title item \<noteq> []"
    by (simp add: t ascii_def)
  have pos: "0 < length (itemElements (parseFromString env []))" "itemElements (parseFromString env []) ! 0 = item"
    by (simp_all add: entries)
  have eight: "(0::nat) < 8" by simp
  note w = parseRSS_unparseable_date [OF run eight pos ne el bad]
  have ti: "title (entry_item env 1000 item 0) = ascii ''A''"
    by (simp add: entry_item_def t)
  have main: "parseRSS env 1000 [] = Inr items \<and> entry_item env 1000 item 0 \<in> set items \<and>
     title (entry_item env 1000 item 0) = ascii ''A'' \<and>
     pubDate (entry_item env 1000 item 0) = Invalid_Date \<and>
     pubDate (entry_item env 1000 item 0) \<noteq> Date 1000"
    by (intro conjI run ti w [THEN conjunct1] w [THEN conjunct2, THEN conjunct1]
          w [THEN conjunct2, THEN conjunct2])
  have "\<exists>items it. parseRSS env 1000 [] = Inr items \<and>
     it \<in> set items \<and> title it = ascii ''A'' \<and> pubDate it = Invalid_Date \<and> pubDate it \<noteq> Date 1000"
    by (rule exI [of _ items], rule exI [of _ "entry_item env 1000 item 0"], rule main)
  then show ?thesis
    unfolding env_def .
qed

section \<open>Properties of formatTimeAgo\<close>

lemma int_div_less_iff:
  fixes a b k :: int
  assumes "0 < b"
  shows "(a div b < k) = (a < k * b)"
proof
  have split: "b * (a div b) + a mod b = a" by (rule mult_div_mod_eq)
  have lo: "0 \<le> a mod b" using assms by (rule pos_mod_sign)
  have hi: "a mod b < b" using assms by (rule pos_mod_bound)
  {
    assume "a div b < k"
    then have "a div b + 1 \<le> k" by simp
    then have "(a div b + 1) * b \<le> k * b" using assms by (simp only: mult_right_mono less_imp_le)
    moreover have "(a div b + 1) * b = b * (a div b) + b"
      by (simp add: algebra_simps)
    moreover have "a < b * (a div b) + b"
      using split hi by linarith
    ultimately show "a < k * b" by simp
  }
  {
    assume less: "a < k * b"
    show "a div b < k"
    proof (rule ccontr)
      assume "\<not> a div b < k"
      then have "k \<le> a div b" by simp
      then have "k * b \<le> (a div b) * b" using assms by (simp only: mult_right_mono less_imp_le)
      moreover have "(a div b) * b = b * (a div b)"
        by (simp add: algebra_simps)
      moreover have "b * (a div b) \<le> a"
        using split lo by linarith
      ultimately show False using less by simp
    qed
  }
qed

text \<open>
  Claim C5. With \<open>d\<close> the difference in milliseconds between the current time and the
  time stamp: a value that is not a \<open>Date\<close>, an Invalid Date, and any \<open>d\<close> below one minute
  (a future time stamp included) give "just updated"; below 60 minutes the text counts the
  whole minutes, below 24 hours the whole hours, from there on the whole days. A time
  stamp 90 seconds in the past is in the one-minute bucket.
\<close>

theorem formatTimeAgo_buckets:
  "formatTimeAgo now OtherValue = just_updated \<and>
   formatTimeAgo now (DateValue Invalid_Date) = just_updated \<and>
   (now - t < 60000 \<longrightarrow> formatTimeAgo now (DateValue (Date t)) = just_updated) \<and>
   (60000 \<le> now - t \<and> now - t < 3600000 \<longrightarrow>
      formatTimeAgo now (DateValue (Date t)) = decimal (nat ((now - t) div 60000)) @ minutes_ago) \<and>
   (3600000 \<le> now - t \<and> now - t < 86400000 \<longrightarrow>
      formatTimeAgo now (DateValue (Date t)) = decimal (nat ((now - t) div 3600000)) @ hours_ago) \<and>
   (86400000 \<le> now - t \<longrightarrow>
      formatTimeAgo now (DateValue (Date t)) = decimal (nat ((now - t) div 86400000)) @ days_ago) \<and>
   formatTimeAgo now (DateValue (Date (now - 90000))) = ascii ''1'' @ minutes_ago"
proof -
  let ?d = "now - t"
  have h: "?d div 60000 div 60 = ?d div 3600000"
    using zdiv_zmult2_eq [of 60 ?d 60000] by simp
  have dd: "?d div 3600000 div 24 = ?d div 86400000"
    using zdiv_zmult2_eq [of 24 ?d 3600000] by simp
  have m0: "?d div 60000 < 0 \<longleftrightarrow> ?d < 0"
    using int_div_less_iff [of 60000 ?d 0] by simp
  have m1: "?d div 60000 < 1 \<longleftrightarrow> ?d < 60000"
    using int_div_less_iff [of 60000 ?d 1] by simp
  have m60: "?d div 60000 < 60 \<longleftrightarrow> ?d < 3600000"
    using int_div_less_iff [of 60000 ?d 60] by simp
  have h24: "?d div 3600000 < 24 \<longleftrightarrow> ?d < 86400000"
    using int_div_less_iff [of 3600000 ?d 24] by simp
  have f: "formatTimeAgo now (DateValue (Date t)) =
     (if ?d < 0 then just_updated
      else if ?d < 60000 then just_updated
      else if ?d < 3600000 then decimal (nat (?d div 60000)) @ minutes_ago
      else if ?d < 86400000 then decimal (nat (?d div 3600000)) @ hours_ago
      else decimal (nat (?d div 86400000)) @ days_ago)"
    unfolding formatTimeAgo_def Let_def jsvalue.case date.case h dd m0 m1 m60 h24 ..
  have q: "(90000::int) div 60000 = 1" by simp
  have ninety: "formatTimeAgo now (DateValue (Date (now - 90000))) = ascii ''1'' @ minutes_ago"
    by (simp add: formatTimeAgo_def Let_def q decimal.simps ascii_def)
  have other: "formatTimeAgo now OtherValue = just_updated"
    "formatTimeAgo now (DateValue Invalid_Date) = just_updated"
    by (simp_all add: formatTimeAgo_def)
  show ?thesis
    unfolding f by (simp only: other ninety) simp
qed


theorem formatTimeAgo_buckets_witness:
  "formatTimeAgo 1000000000 (DateValue (Date 999970000)) = just_updated \<and>
   formatTimeAgo 1000000000 (DateValue (Date 1000005000)) = just_updated \<and>
   formatTimeAgo 1000000000 (DateValue (Date 999910000)) = ascii ''1'' @ minutes_ago \<and>
   formatTimeAgo 1000000000 (DateValue (Date 992800000)) = ascii ''2'' @ hours_ago \<and>
   formatTimeAgo 1000000000 (DateValue (Date 740800000)) = ascii ''3'' @ days_ago"
proof -
  have a: "formatTimeAgo 1000000000 (DateValue (Date 999970000)) = just_updated"
    using formatTimeAgo_buckets [of 1000000000 999970000] by simp
  have b: "formatTimeAgo 1000000000 (DateValue (Date 1000005000)) = just_updated"
    using formatTimeAgo_buckets [of 1000000000 1000005000] by simp
  have c: "formatTimeAgo 1000000000 (DateValue (Date 999910000)) = ascii ''1'' @ minutes_ago"
    using formatTimeAgo_buckets [of 1000000000 999910000] by (simp add: decimal.simps ascii_def)
  have d: "formatTimeAgo 1000000000 (DateValue (Date 992800000)) = ascii ''2'' @ hours_ago"
    using formatTimeAgo_buckets [of 1000000000 992800000] by (simp add: decimal.simps ascii_def)
  have e: "formatTimeAgo 1000000000 (DateValue (Date 740800000)) = ascii ''3'' @ days_ago"
    using formatTimeAgo_buckets [of 1000000000 740800000] by (simp add: decimal.simps ascii_def)
  from a b c d e show ?thesis by (intro conjI)
qed

section \<open>Properties of fetchWithProxy\<close>

lemma fetchWithProxy_loop_spec:
  "fetchWithProxy_loop env url proxies st =
     (let urls = strategy_urls_of env url proxies;
          outs = outcomes env (length (requests st)) urls;
          k = length (takeWhile isl outs)
      in if k < length urls
         then (Inr (projr (outs ! k)), st\<lparr>requests := requests st @ take (Suc k) urls\<rparr>)
         else (Inl (Error (ascii ''All proxies failed'')), st\<lparr>requests := requests st @ urls\<rparr>))"
proof (induction proxies arbitrary: st)
  case Nil
  show ?case by (simp add: strategy_urls_of_def)
next
  case (Cons proxy rest)
  show ?case
  proof (cases "fetchUrl env proxy url")
    case (Inl error)
    then have "strategy_urls_of env url (proxy # rest) = strategy_urls_of env url rest"
      by (simp add: strategy_urls_of_def)
    moreover have "fetchWithProxy_loop env url (proxy # rest) st = fetchWithProxy_loop env url rest st"
      using Inl by simp
    ultimately show ?thesis using Cons.IH [of st] by simp
  next
    case (Inr target)
    then have urls: "strategy_urls_of env url (proxy # rest) = target # strategy_urls_of env url rest"
      by (simp add: strategy_urls_of_def)
    let ?st' = "st\<lparr>requests := requests st @ [target]\<rparr>"
    show ?thesis
    proof (cases "fetch_outcome env (length (requests st)) target")
      case (Inl error)
      then have step: "fetchWithProxy_loop env url (proxy # rest) st = fetchWithProxy_loop env url rest ?st'"
        using Inr by (simp add: fetchRSS_def)
      show ?thesis
        unfolding step urls Cons.IH [of ?st'] using Inl by (simp add: Let_def)
    next
      case body: (Inr result)
      then have step: "fetchWithProxy_loop env url (proxy # rest) st = (Inr result, ?st')"
        using Inr by (simp add: fetchRSS_def)
      show ?thesis
        unfolding step urls using body by (simp add: Let_def)
    qed
  qed
qed


lemma length_outcomes: "length (outcomes env n urls) = length urls"
  by (induction urls arbitrary: n) simp_all

lemma ascii_eq_Nil: "ascii s = [] \<longleftrightarrow> s = []"
  by (simp add: ascii_def)

lemma strategy_urls_plain:
  "encodeURIComponent env = Inr \<Longrightarrow>
   strategy_urls env url =
     [url, ascii ''https://api.allorigins.win/raw?url='' @ url, ascii ''https://corsproxy.io/?'' @ url]"
  by (simp add: strategy_urls_def strategy_urls_of_def CORS_PROXIES_def fetchUrl_def ascii_eq_Nil)

text \<open>
  Claim C7. \<open>fetchWithProxy\<close> requests the strategy URLs in the declared order, one after
  the other: the requests it adds to the log are the strategy URLs up to and including the
  first one whose request succeeds, the result is the body of that response, and nothing is
  requested after it. When none succeeds every strategy URL has been requested once, in
  order.
\<close>

theorem fetchWithProxy_order:
  "fetchWithProxy env url st =
     (let urls = strategy_urls env url;
          outs = outcomes env (length (requests st)) urls;
          k = length (takeWhile isl outs)
      in if k < length urls
         then (Inr (projr (outs ! k)), st\<lparr>requests := requests st @ take (Suc k) urls\<rparr>)
         else (Inl (Error (ascii ''All proxies failed'')), st\<lparr>requests := requests st @ urls\<rparr>))"
  unfolding fetchWithProxy_def strategy_urls_def by (rule fetchWithProxy_loop_spec)

theorem fetchWithProxy_order_witness:
  "fetchWithProxy (second_try_platform (rss_feed []) (ascii ''<rss/>'')) (ascii ''https://rsshub.app/rfi/cn'') empty_page =
     (Inr (ascii ''<rss/>''),
      empty_page\<lparr>requests := [ascii ''https://rsshub.app/rfi/cn'',
         ascii ''https://api.allorigins.win/raw?url='' @ ascii ''https://rsshub.app/rfi/cn'']\<rparr>)"
proof -
  let ?env = "second_try_platform (rss_feed []) (ascii ''<rss/>'')"
  let ?url = "ascii ''https://rsshub.app/rfi/cn''"
  have enc: "encodeURIComponent ?env = Inr"
    by (simp add: second_try_platform_def test_platform_def)
  have outs: "outcomes ?env 0 (strategy_urls ?env ?url) =
      [Inl (Native ''TypeError'' (ascii ''Failed to fetch'')), Inr (ascii ''<rss/>''),
       Inl (Native ''TypeError'' (ascii ''Failed to fetch''))]"
    unfolding strategy_urls_plain [OF enc]
    by (simp add: fetch_outcome_def second_try_platform_def test_platform_def)
  show ?thesis
    unfolding fetchWithProxy_order [of ?env ?url empty_page]
    by (simp add: empty_page_def outs Let_def) (simp add: strategy_urls_plain [OF enc])
qed

lemma fetchWithProxy_exhausted:
  assumes "list_all isl (outcomes env (length (requests st)) (strategy_urls env url))"
  shows "fetchWithProxy env url st =
     (Inl (Error (ascii ''All proxies failed'')),
      st\<lparr>requests := requests st @ strategy_urls env url\<rparr>)"
proof -
  let ?outs = "outcomes env (length (requests st)) (strategy_urls env url)"
  have "takeWhile isl ?outs = ?outs"
    using assms by (simp add: takeWhile_eq_all_conv list_all_iff)
  then have "length (takeWhile isl ?outs) = length ?outs"
    by (rule arg_cong)
  then have "length (takeWhile isl ?outs) = length (strategy_urls env url)"
    by (simp only: length_outcomes)
  then show ?thesis
    unfolding fetchWithProxy_def strategy_urls_def fetchWithProxy_loop_spec
    by (simp add: Let_def strategy_urls_def)
qed

text \<open>
  Claim C3, as the code has it. When the attempt of every strategy fails,
  \<open>fetchWithProxy\<close> fails with \<open>new Error('All proxies failed')\<close>: a fixed message, the same
  whatever the underlying errors were. The error of the last attempt is not carried.
\<close>

theorem fetchWithProxy_all_failed:
  assumes "list_all isl (outcomes env (length (requests st)) (strategy_urls env url))"
  shows "fetchWithProxy env url st =
     (Inl (Error (ascii ''All proxies failed'')),
      st\<lparr>requests := requests st @ strategy_urls env url\<rparr>)"
  using assms by (rule fetchWithProxy_exhausted)

lemma fetchWithProxy_error:
  assumes "fst (fetchWithProxy env url st) = Inl error"
  shows "error = Error (ascii ''All proxies failed'')"
  using assms unfolding fetchWithProxy_def fetchWithProxy_loop_spec
  by (simp add: Let_def split: if_splits)

lemma fetchWithProxy_page:
  "\<exists>urls. snd (fetchWithProxy env url st) = st\<lparr>requests := requests st @ urls\<rparr>"
  unfolding fetchWithProxy_def fetchWithProxy_loop_spec
  by (auto simp: Let_def)

lemma outcomes_network_down:
  "fetch_response env = (\<lambda>n u. Rejected error) \<Longrightarrow> list_all isl (outcomes env n urls)"
  by (induction urls arbitrary: n) (simp_all add: fetch_outcome_def)

lemma outcomes_http_500:
  "list_all isl (outcomes (http_500_platform doc) n urls)"
  by (induction urls arbitrary: n) (simp_all add: fetch_outcome_def http_500_platform_def)

theorem fetchWithProxy_all_failed_witness:
  "fetchWithProxy (test_platform (rss_feed [])) (ascii ''https://rsshub.app/rfi/cn'') empty_page =
     (Inl (Error (ascii ''All proxies failed'')),
      empty_page\<lparr>requests := [ascii ''https://rsshub.app/rfi/cn'',
         ascii ''https://api.allorigins.win/raw?url='' @ ascii ''https://rsshub.app/rfi/cn'',
         ascii ''https://corsproxy.io/?'' @ ascii ''https://rsshub.app/rfi/cn'']\<rparr>)"
proof -
  let ?env = "test_platform (rss_feed [])"
  let ?url = "ascii ''https://rsshub.app/rfi/cn''"
  have enc: "encodeURIComponent ?env = Inr"
    by (simp add: test_platform_def)
  have down: "fetch_response ?env = (\<lambda>n u. Rejected (Native ''TypeError'' (ascii ''Failed to fetch'')))"
    by (simp add: test_platform_def)
  have "list_all isl (outcomes ?env (length (requests empty_page)) (strategy_urls ?env ?url))"
    by (rule outcomes_network_down [OF down])
  from fetchWithProxy_all_failed [OF this] show ?thesis
    by (simp add: strategy_urls_plain [OF enc] empty_page_def)
qed

text \<open>
  Against claim C3 as stated: with the network down and with every response an HTTP 500,
  the last underlying errors differ and the error \<open>fetchWithProxy\<close> fails with is the same.
\<close>

theorem fetchWithProxy_error_forgets_cause:
  "fst (fetchWithProxy (test_platform (rss_feed [])) (ascii ''https://rsshub.app/rfi/cn'') empty_page) =
     Inl (Error (ascii ''All proxies failed'')) \<and>
   fst (fetchWithProxy (http_500_platform (rss_feed [])) (ascii ''https://rsshub.app/rfi/cn'') empty_page) =
     Inl (Error (ascii ''All proxies failed'')) \<and>
   last (outcomes (test_platform (rss_feed [])) 0
          (strategy_urls (test_platform (rss_feed [])) (ascii ''https://rsshub.app/rfi/cn''))) =
     Inl (Native ''TypeError'' (ascii ''Failed to fetch'')) \<and>
   last (outcomes (http_500_platform (rss_feed [])) 0
          (strategy_urls (http_500_platform (rss_feed [])) (ascii ''https://rsshub.app/rfi/cn''))) =
     Inl (Error (ascii ''HTTP error! status: 500'')) \<and>
   Native ''TypeError'' (ascii ''Failed to fetch'') \<noteq> Error (ascii ''HTTP error! status: 500'')"
proof -
  let ?a = "test_platform (rss_feed [])"
  let ?b = "http_500_platform (rss_feed [])"
  let ?url = "ascii ''https://rsshub.app/rfi/cn''"
  have enc_a: "encodeURIComponent ?a = Inr"
    by (simp add: test_platform_def)
  have enc_b: "encodeURIComponent ?b = Inr"
    by (simp add: http_500_platform_def test_platform_def)
  have down: "fetch_response ?a = (\<lambda>n u. Rejected (Native ''TypeError'' (ascii ''Failed to fetch'')))"
    by (simp add: test_platform_def)
  have fa: "list_all isl (outcomes ?a (length (requests empty_page)) (strategy_urls_of ?a ?url CORS_PROXIES))"
    by (rule outcomes_network_down [OF down])
  have fb: "list_all isl (outcomes ?b (length (requests empty_page)) (strategy_urls_of ?b ?url CORS_PROXIES))"
    by (rule outcomes_http_500)
  have ta: "takeWhile isl (outcomes ?a (length (requests empty_page)) (strategy_urls_of ?a ?url CORS_PROXIES)) =
            outcomes ?a (length (requests empty_page)) (strategy_urls_of ?a ?url CORS_PROXIES)"
    using fa by (simp add: takeWhile_eq_all_conv list_all_iff)
  have tb: "takeWhile isl (outcomes ?b (length (requests empty_page)) (strategy_urls_of ?b ?url CORS_PROXIES)) =
            outcomes ?b (length (requests empty_page)) (strategy_urls_of ?b ?url CORS_PROXIES)"
    using fb by (simp add: takeWhile_eq_all_conv list_all_iff)
  have a: "fst (fetchWithProxy ?a ?url empty_page) = Inl (Error (ascii ''All proxies failed''))"
    unfolding fetchWithProxy_def fetchWithProxy_loop_spec Let_def ta
    by (simp add: length_outcomes)
  have b: "fst (fetchWithProxy ?b ?url empty_page) = Inl (Error (ascii ''All proxies failed''))"
    unfolding fetchWithProxy_def fetchWithProxy_loop_spec Let_def tb
    by (simp add: length_outcomes)
  have la: "last (outcomes ?a 0 (strategy_urls ?a ?url)) = Inl (Native ''TypeError'' (ascii ''Failed to fetch''))"
    unfolding strategy_urls_plain [OF enc_a]
    by (simp add: fetch_outcome_def test_platform_def)
  have lb: "last (outcomes ?b 0 (strategy_urls ?b ?url)) = Inl (Error (ascii ''HTTP error! status: 500''))"
    unfolding strategy_urls_plain [OF enc_b]
    by (simp add: fetch_outcome_def http_500_platform_def decimal.simps ascii_def)
  show ?thesis
    by (intro conjI a b la lb) simp
qed

section \<open>Properties of fetchAndRenderSource\<close>

lemma fetch_items_page:
  "\<exists>urls. snd (fetch_items env feedUrl st) = st\<lparr>requests := requests st @ urls\<rparr>"
proof -
  obtain r st1 where f: "fetchWithProxy env feedUrl st = (r, st1)"
    by (cases "fetchWithProxy env feedUrl st")
  from fetchWithProxy_page [of env feedUrl st] f
  obtain urls where st1: "st1 = st\<lparr>requests := requests st @ urls\<rparr>" by auto
  have "snd (fetch_items env feedUrl st) = st1"
    using f by (simp add: fetch_items_def Let_def split: sum.splits list.splits)
  with st1 show ?thesis by blast
qed

lemma fetch_items_error:
  assumes "fst (fetch_items env feedUrl st) = Inl error"
  shows "error = Error (ascii ''All proxies failed'') \<or>
         error = Error (ascii ''Failed to parse RSS XML'') \<or>
         error = Error (ascii ''No items found in feed'')"
proof -
  obtain r st1 where f: "fetchWithProxy env feedUrl st = (r, st1)"
    by (cases "fetchWithProxy env feedUrl st")
  show ?thesis
  proof (cases r)
    case (Inl e)
    then have "fst (fetchWithProxy env feedUrl st) = Inl e" using f by simp
    then have "e = Error (ascii ''All proxies failed'')" by (rule fetchWithProxy_error)
    moreover have "fst (fetch_items env feedUrl st) = Inl e"
      using f Inl by (simp add: fetch_items_def)
    ultimately show ?thesis using assms by simp
  next
    case (Inr xmlText)
    show ?thesis
      using assms f Inr
      by (auto simp: fetch_items_def parseRSS_def Let_def split: sum.splits list.splits option.splits)
  qed
qed

lemma fetch_items_error_message:
  "fst (fetch_items env feedUrl st) = Inl error \<Longrightarrow> message error \<noteq> []"
  by (drule fetch_items_error) (auto simp: ascii_eq_Nil)

lemma fetch_items_nonempty:
  "fst (fetch_items env feedUrl st) = Inr (items, updateTime) \<Longrightarrow> items \<noteq> []"
  by (auto simp: fetch_items_def Let_def split: prod.splits sum.splits list.splits)

lemma attached_requests [simp]: "attached el (st\<lparr>requests := r\<rparr>) = attached el st"
  by (simp add: attached_def)

lemma set_outerHTML_attached:
  "attached el st \<Longrightarrow> set_outerHTML env el sourceKey newCard st = (Inr (), replace_card el sourceKey newCard st)"
  by (simp add: set_outerHTML_def)

lemma try_feed_failure:
  assumes "fst (fetch_items env feedUrl st) = Inl error"
  shows "try_feed env sourceKey el feedUrl st = (Inl error, snd (fetch_items env feedUrl st))"
  using assms by (cases "fetch_items env feedUrl st") (simp add: try_feed_def)

lemma try_feed_success:
  assumes "fst (fetch_items env feedUrl st) = Inr (items, updateTime)" and "attached el st"
  shows "try_feed env sourceKey el feedUrl st =
     (Inr (), initNewsItemClickHandlers sourceKey
                (replace_card el sourceKey (NewsCard items updateTime) (snd (fetch_items env feedUrl st))))"
proof -
  obtain urls where p: "snd (fetch_items env feedUrl st) = st\<lparr>requests := requests st @ urls\<rparr>"
    using fetch_items_page by blast
  have "attached el (snd (fetch_items env feedUrl st))"
    unfolding p using assms(2) by simp
  then show ?thesis
    using assms(1)
    by (cases "fetch_items env feedUrl st") (simp add: try_feed_def set_outerHTML_attached)
qed

lemma feeds_loop_result:
  assumes "attached el st"
  shows "fst (feeds_loop env sourceKey el feeds lastError st) =
           Inr (list_ex (\<lambda>r. \<not> isl r) (endpoint_outcomes env feeds st))"
  using assms
proof (induction feeds arbitrary: lastError st)
  case Nil
  then show ?case by (simp add: set_outerHTML_attached)
next
  case (Cons feedUrl rest)
  show ?case
  proof (cases "fst (fetch_items env feedUrl st)")
    case (Inl error)
    obtain urls where p: "snd (fetch_items env feedUrl st) = st\<lparr>requests := requests st @ urls\<rparr>"
      using fetch_items_page by blast
    have att: "attached el (snd (fetch_items env feedUrl st))"
      unfolding p using Cons.prems by simp
    have "feeds_loop env sourceKey el (feedUrl # rest) lastError st =
          feeds_loop env sourceKey el rest (Some error) (snd (fetch_items env feedUrl st))"
      by (simp add: try_feed_failure [OF Inl])
    then show ?thesis
      using Cons.IH [OF att, of "Some error"] Inl by simp
  next
    case (Inr found)
    obtain items updateTime where found: "found = (items, updateTime)" by (cases found)
    have "fst (feeds_loop env sourceKey el (feedUrl # rest) lastError st) = Inr True"
      using try_feed_success [OF Inr [unfolded found] Cons.prems] by simp
    then show ?thesis using Inr by simp
  qed
qed


lemma feeds_loop_all_failed:
  assumes "attached el st" and "list_all isl (endpoint_outcomes env feeds st)"
  shows "\<exists>urls. feeds_loop env sourceKey el feeds lastError st =
           (Inr False,
            replace_card el sourceKey
              (ErrorCard (error_text (if feeds = [] then lastError
                                      else Some (projl (last (endpoint_outcomes env feeds st))))))
              (st\<lparr>requests := requests st @ urls\<rparr>))"
  using assms
proof (induction feeds arbitrary: lastError st)
  case Nil
  have "feeds_loop env sourceKey el [] lastError st =
          (Inr False, replace_card el sourceKey (ErrorCard (error_text lastError))
                        (st\<lparr>requests := requests st @ []\<rparr>))"
    using Nil.prems(1) by (simp add: set_outerHTML_attached)
  then show ?case by (intro exI [of _ "[]"]) simp
next
  case (Cons feedUrl rest)
  let ?st1 = "snd (fetch_items env feedUrl st)"
  from Cons.prems(2) obtain error where failed: "fst (fetch_items env feedUrl st) = Inl error"
    by (cases "fst (fetch_items env feedUrl st)") simp_all
  from Cons.prems(2) have rest_failed: "list_all isl (endpoint_outcomes env rest ?st1)"
    by simp
  obtain urls1 where p: "?st1 = st\<lparr>requests := requests st @ urls1\<rparr>"
    using fetch_items_page by blast
  have att: "attached el ?st1"
    unfolding p using Cons.prems(1) by simp
  from Cons.IH [OF att rest_failed, of "Some error"]
  obtain urls2 where rest: "feeds_loop env sourceKey el rest (Some error) ?st1 =
      (Inr False,
       replace_card el sourceKey
         (ErrorCard (error_text (if rest = [] then Some error
                                 else Some (projl (last (endpoint_outcomes env rest ?st1))))))
         (?st1\<lparr>requests := requests ?st1 @ urls2\<rparr>))"
    by blast
  have step: "feeds_loop env sourceKey el (feedUrl # rest) lastError st =
          feeds_loop env sourceKey el rest (Some error) ?st1"
    by (simp add: try_feed_failure [OF failed])
  have last_eq: "(if rest = [] then Some error
                  else Some (projl (last (endpoint_outcomes env rest ?st1)))) =
                 Some (projl (last (endpoint_outcomes env (feedUrl # rest) st)))"
    using failed by (cases rest) simp_all
  have page_eq: "?st1\<lparr>requests := requests ?st1 @ urls2\<rparr> =
                 st\<lparr>requests := requests st @ (urls1 @ urls2)\<rparr>"
    by (subst (1 2) p) simp
  show ?case
    unfolding step rest last_eq page_eq by (intro exI [of _ "urls1 @ urls2"]) simp
qed

lemma find_replaced:
  assumes "find (\<lambda>c. data_source c = sourceKey) cs = Some x" and "element_id x = el"
    and "data_source new = sourceKey"
  shows "find (\<lambda>c. data_source c = sourceKey) (map (\<lambda>c. if element_id c = el then new else c) cs) =
           Some new"
  using assms by (induction cs) (auto split: if_splits)

lemma card_content_replaced:
  assumes "querySelector_card sourceKey st = Some el"
  shows "card_content sourceKey (replace_card el sourceKey newCard (st\<lparr>requests := r\<rparr>)) = Some newCard"
proof -
  from assms obtain x where x: "find (\<lambda>c. data_source c = sourceKey) (cards st) = Some x"
    and el: "element_id x = el"
    by (auto simp: querySelector_card_def)
  show ?thesis
    by (simp add: card_content_def replace_card_def find_replaced [OF x el])
qed

lemma querySelector_card_attached:
  "querySelector_card sourceKey st = Some el \<Longrightarrow> attached el st"
  by (auto simp: querySelector_card_def attached_def list_ex_iff find_Some_iff)

lemma registry_feeds_nonempty:
  "map_of RSS_FEEDS sourceKey = Some feeds \<Longrightarrow> feeds \<noteq> []"
  by (auto simp: RSS_FEEDS_def split: if_splits)

text \<open>
  When the card the resolution found is still in the document at the end and every
  endpoint attempt has failed, the result is \<open>false\<close> and the card becomes the error
  card with the message of the last error.
\<close>

lemma all_failed_error_card:
  assumes "map_of RSS_FEEDS sourceKey = Some feeds"
    and "querySelector_card sourceKey st = Some cardElement"
    and "list_all isl (endpoint_outcomes env feeds st)"
  shows "\<exists>st'. fetchAndRenderSource env sourceKey st = (Inr False, st') \<and>
           card_content sourceKey st' =
             Some (ErrorCard (message (projl (last (endpoint_outcomes env feeds st)))))"
proof -
  have ne: "feeds \<noteq> []" using assms(1) by (rule registry_feeds_nonempty)
  then have outs_ne: "endpoint_outcomes env feeds st \<noteq> []" by (cases feeds) simp_all
  then have "last (endpoint_outcomes env feeds st) \<in> set (endpoint_outcomes env feeds st)"
    by (rule last_in_set)
  then have "isl (last (endpoint_outcomes env feeds st))"
    using assms(3) by (simp add: list_all_iff)
  then obtain error where last: "last (endpoint_outcomes env feeds st) = Inl error"
    by (cases "last (endpoint_outcomes env feeds st)") simp_all
  have "\<exists>feedUrl st0. fst (fetch_items env feedUrl st0) = Inl error"
    using outs_ne last
  proof (induction feeds arbitrary: st)
    case Nil
    then show ?case by simp
  next
    case (Cons feedUrl rest)
    then show ?case by (cases rest) auto
  qed
  then have msg: "message error \<noteq> []"
    using fetch_items_error_message by blast
  have att: "attached cardElement st" using assms(2) by (rule querySelector_card_attached)
  from feeds_loop_all_failed [OF att assms(3), of sourceKey None]
  obtain urls where loop: "feeds_loop env sourceKey cardElement feeds None st =
      (Inr False,
       replace_card cardElement sourceKey (ErrorCard (message error))
         (st\<lparr>requests := requests st @ urls\<rparr>))"
    using ne last msg by (auto simp: error_text_def)
  have run: "fetchAndRenderSource env sourceKey st = feeds_loop env sourceKey cardElement feeds None st"
    using assms(1,2) by (simp add: fetchAndRenderSource_def)
  let ?st' = "replace_card cardElement sourceKey (ErrorCard (message error))
                (st\<lparr>requests := requests st @ urls\<rparr>)"
  have content: "card_content sourceKey ?st' = Some (ErrorCard (message error))"
    by (rule card_content_replaced [OF assms(2)])
  have "fetchAndRenderSource env sourceKey st = (Inr False, ?st') \<and>
        card_content sourceKey ?st' =
          Some (ErrorCard (message (projl (last (endpoint_outcomes env feeds st)))))"
    using run loop content last by simp
  then show ?thesis
    by (rule exI [of _ ?st'])
qed


lemma fetchWithProxy_first_try:
  assumes "fetch_outcome env (length (requests st)) url = Inr body"
  shows "fetchWithProxy env url st = (Inr body, st\<lparr>requests := requests st @ [url]\<rparr>)"
  using assms by (simp add: fetchWithProxy_def CORS_PROXIES_def fetchUrl_def fetchRSS_def)

lemma fetch_items_network_down:
  assumes "fetch_response env = (\<lambda>n u. Rejected error)"
  shows "fst (fetch_items env feedUrl st) = Inl (Error (ascii ''All proxies failed''))"
proof -
  have "list_all isl (outcomes env (length (requests st)) (strategy_urls env feedUrl))"
    using assms by (rule outcomes_network_down)
  then show ?thesis
    by (simp add: fetch_items_def fetchWithProxy_exhausted)
qed

lemma endpoint_outcomes_network_down:
  assumes "fetch_response env = (\<lambda>n u. Rejected error)"
  shows "endpoint_outcomes env feeds st =
           replicate (length feeds) (Inl (Error (ascii ''All proxies failed'')))"
  by (induction feeds arbitrary: st) (simp_all add: fetch_items_network_down [OF assms])

lemma online_fetch_outcome:
  "fetch_outcome (online_platform doc body) n url = Inr body"
  by (simp add: fetch_outcome_def online_platform_def)

lemma online_parseFromString:
  "parseFromString (online_platform doc body) xmlText = doc"
  by (simp add: online_platform_def test_platform_def)

lemma fetch_items_success:
  assumes "fetchWithProxy env feedUrl st = (Inr xmlText, st1)"
    and "parseRSS env (clock env (length (requests st1))) xmlText = Inr (first # others)"
  shows "fst (fetch_items env feedUrl st) =
           Inr (first # others,
                formatTimeAgo (clock env (length (requests st1))) (DateValue (pubDate first)))"
  using assms by (simp add: fetch_items_def Let_def)

text \<open>
  Claim C8, as the code has it. For a well-formed payload none of whose first 8 entries
  has a title, \<open>parseRSS\<close> does not fail: it returns the empty list. It is
  \<open>fetchAndRenderSource\<close> that refuses an empty list, with the error
  \<open>No items found in feed\<close>, and goes on to the next endpoint with that error as the last
  one.
\<close>

theorem parseRSS_empty_feed:
  assumes "doc_querySelector [''parsererror''] (parseFromString env xmlText) = None"
    and "list_all (\<lambda>e. entry_title e = []) (take 8 (itemElements (parseFromString env xmlText)))"
  shows "parseRSS env now xmlText = Inr [] \<and>
         (fetchWithProxy env feedUrl st = (Inr xmlText, st1) \<longrightarrow>
            fetch_items env feedUrl st = (Inl (Error (ascii ''No items found in feed'')), st1) \<and>
            feeds_loop env sourceKey cardElement (feedUrl # rest) lastError st =
              feeds_loop env sourceKey cardElement rest
                (Some (Error (ascii ''No items found in feed''))) st1)"
proof -
  have none: "filter (\<lambda>(j, e). entry_title e \<noteq> []) (enumerate n es) = []"
    if "list_all (\<lambda>e. entry_title e = []) es" for n es
    using that by (induction es arbitrary: n) auto
  have empty: "parseRSS env t xmlText = Inr []" for t
    using parseRSS_items [OF assms(1), of t] none [OF assms(2)] by simp
  have resolver: "fetch_items env feedUrl st = (Inl (Error (ascii ''No items found in feed'')), st1) \<and>
            feeds_loop env sourceKey cardElement (feedUrl # rest) lastError st =
              feeds_loop env sourceKey cardElement rest
                (Some (Error (ascii ''No items found in feed''))) st1"
    if fetched: "fetchWithProxy env feedUrl st = (Inr xmlText, st1)"
  proof -
    have items: "fetch_items env feedUrl st = (Inl (Error (ascii ''No items found in feed'')), st1)"
      by (simp add: fetch_items_def fetched empty Let_def)
    then have "fst (fetch_items env feedUrl st) = Inl (Error (ascii ''No items found in feed''))"
      by simp
    from try_feed_failure [OF this, of sourceKey cardElement] items
    show ?thesis by simp
  qed
  from empty resolver show ?thesis by blast
qed

theorem parseRSS_empty_feed_witness:
  "parseRSS (online_platform (rss_feed [feed_item '' '']) (ascii ''<rss/>'')) 0 (ascii ''<rss/>'') = Inr [] \<and>
   fetch_items (online_platform (rss_feed [feed_item '' '']) (ascii ''<rss/>''))
       (ascii ''https://rsshub.app/rfi/cn'') empty_page =
     (Inl (Error (ascii ''No items found in feed'')),
      empty_page\<lparr>requests := [ascii ''https://rsshub.app/rfi/cn'']\<rparr>)"
proof -
  let ?env = "online_platform (rss_feed [feed_item '' '']) (ascii ''<rss/>'')"
  let ?url = "ascii ''https://rsshub.app/rfi/cn''"
  have wf: "doc_querySelector [''parsererror''] (parseFromString ?env (ascii ''<rss/>'')) = None"
    by (simp add: online_parseFromString doc_querySelector_def rss_feed_def feed_item_def)
  have blank: "list_all (\<lambda>e. entry_title e = [])
                 (take 8 (itemElements (parseFromString ?env (ascii ''<rss/>''))))"
    by (simp add: online_parseFromString itemElements_def doc_querySelectorAll_def rss_feed_def
          feed_item_def entry_title_def querySelector_def trim_def is_space_def unwrap_cdata_def
          cdata_open_def ascii_def Let_def)
  have fetched: "fetchWithProxy ?env ?url empty_page =
      (Inr (ascii ''<rss/>''), empty_page\<lparr>requests := requests empty_page @ [?url]\<rparr>)"
    by (rule fetchWithProxy_first_try) (rule online_fetch_outcome)
  note w = parseRSS_empty_feed [OF wf blank, of 0 ?url empty_page
      "empty_page\<lparr>requests := requests empty_page @ [?url]\<rparr>"]
  have a: "parseRSS ?env 0 (ascii ''<rss/>'') = Inr []"
    by (rule w [THEN conjunct1])
  have b: "fetch_items ?env ?url empty_page =
     (Inl (Error (ascii ''No items found in feed'')),
      empty_page\<lparr>requests := requests empty_page @ [?url]\<rparr>)"
    by (rule w [THEN conjunct2, THEN mp, OF fetched, THEN conjunct1])
  have c: "empty_page\<lparr>requests := requests empty_page @ [?url]\<rparr> = empty_page\<lparr>requests := [?url]\<rparr>"
    by (simp add: empty_page_def)
  from a b show ?thesis unfolding c by (rule conjI)
qed

text \<open>
  Against claim C8 as stated: a well-formed payload with one entry, whose title is blank;
  \<open>parseRSS\<close> returns the empty list as its result.
\<close>

theorem parseRSS_returns_empty_list:
  "doc_querySelector [''parsererror''] (parseFromString (test_platform (rss_feed [feed_item '' ''])) []) = None \<and>
   length (itemElements (parseFromString (test_platform (rss_feed [feed_item '' ''])) [])) = 1 \<and>
   parseRSS (test_platform (rss_feed [feed_item '' ''])) 0 [] = Inr []"
  by (simp add: parseRSS_def test_platform_def doc_querySelector_def doc_querySelectorAll_def
        itemElements_def rss_feed_def feed_item_def entry_callback_def entry_title_def
        querySelector_def trim_def is_space_def unwrap_cdata_def cdata_open_def ascii_def Let_def)

section \<open>Overlapping resolutions of one source\<close>

lemma shown_requests [simp]: "shown (st\<lparr>requests := r\<rparr>) = shown st"
  by (simp add: shown_def)

lemma add_handlers_shown:
  "map (\<lambda>c. (element_id c, data_source c, content c)) (add_handlers sourceKey cs) =
   map (\<lambda>c. (element_id c, data_source c, content c)) cs"
  by (induction cs) simp_all

lemma initNewsItemClickHandlers_shown [simp]:
  "shown (initNewsItemClickHandlers sourceKey st) = shown st"
  by (simp add: shown_def initNewsItemClickHandlers_def add_handlers_shown)

lemma attached_shown: "attached el st = (el \<in> fst ` set (shown st))"
  by (force simp: attached_def shown_def list_ex_iff)


lemma fetch_items_shown [simp]: "shown (snd (fetch_items env feedUrl st)) = shown st"
proof -
  obtain urls where "snd (fetch_items env feedUrl st) = st\<lparr>requests := requests st @ urls\<rparr>"
    using fetch_items_page by blast
  then show ?thesis by simp
qed

lemma set_outerHTML_detached:
  "\<not> attached el st \<Longrightarrow> snd (set_outerHTML env el sourceKey newCard st) = st"
  by (simp add: set_outerHTML_def)

lemma try_feed_detached:
  assumes "\<not> attached el st"
  shows "shown (snd (try_feed env sourceKey el feedUrl st)) = shown st"
proof (cases "fetch_items env feedUrl st")
  case (Pair r st1)
  then have s1: "shown st1 = shown st"
    using fetch_items_shown [of env feedUrl st] by simp
  then have det: "\<not> attached el st1"
    using assms by (simp add: attached_shown)
  show ?thesis
  proof (cases r)
    case (Inl error)
    then show ?thesis using Pair s1 by (simp add: try_feed_def)
  next
    case (Inr found)
    obtain items updateTime where found: "found = (items, updateTime)" by (cases found)
    obtain w st2 where w: "set_outerHTML env el sourceKey (NewsCard items updateTime) st1 = (w, st2)"
      by (cases "set_outerHTML env el sourceKey (NewsCard items updateTime) st1")
    then have "st2 = st1" using set_outerHTML_detached [OF det, of env sourceKey "NewsCard items updateTime"]
      by simp
    then show ?thesis
      using Pair Inr found w s1 by (cases w) (simp_all add: try_feed_def)
  qed
qed

lemma feeds_loop_detached:
  assumes "\<not> attached el st"
  shows "shown (snd (feeds_loop env sourceKey el feeds lastError st)) = shown st"
  using assms
proof (induction feeds arbitrary: lastError st)
  case Nil
  obtain w st' where w: "set_outerHTML env el sourceKey (ErrorCard (error_text lastError)) st = (w, st')"
    by (cases "set_outerHTML env el sourceKey (ErrorCard (error_text lastError)) st")
  then have "st' = st"
    using set_outerHTML_detached [OF Nil.prems, of env sourceKey "ErrorCard (error_text lastError)"] by simp
  then show ?case using w by (cases w) simp_all
next
  case (Cons feedUrl rest)
  obtain r st1 where t: "try_feed env sourceKey el feedUrl st = (r, st1)"
    by (cases "try_feed env sourceKey el feedUrl st")
  then have s1: "shown st1 = shown st"
    using try_feed_detached [OF Cons.prems, of env sourceKey feedUrl] by simp
  then have det: "\<not> attached el st1"
    using Cons.prems by (simp add: attached_shown)
  show ?case
  proof (cases r)
    case (Inl error)
    then show ?thesis using t Cons.IH [OF det, of "Some error"] s1 by simp
  next
    case (Inr u)
    then show ?thesis using t s1 by simp
  qed
qed


lemma page_ok_requests [simp]: "page_ok (st\<lparr>requests := r\<rparr>) = page_ok st"
  by (simp add: page_ok_def)

lemma attached_initNewsItemClickHandlers [simp]:
  "attached el (initNewsItemClickHandlers sourceKey st) = attached el st"
  by (simp add: attached_shown)



section \<open>The result of a resolution\<close>

lemma fetch_items_yields:
  "(\<not> isl (fst (fetch_items env feedUrl st))) = endpoint_yields env feedUrl st"
  by (auto simp: fetch_items_def endpoint_yields_def Let_def
           split: prod.splits sum.splits list.splits)

lemma fetch_items_snd:
  "snd (fetch_items env feedUrl st) = snd (fetchWithProxy env feedUrl st)"
  by (auto simp: fetch_items_def Let_def split: prod.splits sum.splits list.splits)

lemma endpoint_outcomes_yield:
  "list_ex (\<lambda>r. \<not> isl r) (endpoint_outcomes env feeds st) = some_endpoint_yields env feeds st"
  by (induction feeds arbitrary: st) (simp_all add: fetch_items_yields fetch_items_snd)

lemma set_outerHTML_returns:
  assumes "attached el st \<or> \<not> detached_write_throws env"
  shows "fst (set_outerHTML env el sourceKey newCard st) = Inr ()"
  using assms by (auto simp: set_outerHTML_def)

lemma try_feed_returns:
  assumes "fst (fetch_items env feedUrl st) = Inr found"
    and "attached el st \<or> \<not> detached_write_throws env"
  shows "fst (try_feed env sourceKey el feedUrl st) = Inr ()"
proof -
  obtain items updateTime where found: "found = (items, updateTime)" by (cases found)
  obtain urls where p: "snd (fetch_items env feedUrl st) = st\<lparr>requests := requests st @ urls\<rparr>"
    using fetch_items_page by blast
  have ok: "attached el (snd (fetch_items env feedUrl st)) \<or> \<not> detached_write_throws env"
    unfolding p using assms(2) by simp
  obtain w st2 where w: "set_outerHTML env el sourceKey (NewsCard items updateTime)
                           (snd (fetch_items env feedUrl st)) = (w, st2)"
    by (cases "set_outerHTML env el sourceKey (NewsCard items updateTime)
                 (snd (fetch_items env feedUrl st))")
  then have "w = Inr ()"
    using set_outerHTML_returns [OF ok, of sourceKey "NewsCard items updateTime"] by simp
  then show ?thesis
    using assms(1) found w by (cases "fetch_items env feedUrl st") (simp add: try_feed_def)
qed

lemma feeds_loop_boolean:
  assumes "attached el st \<or> \<not> detached_write_throws env"
  shows "fst (feeds_loop env sourceKey el feeds lastError st) =
           Inr (some_endpoint_yields env feeds st)"
  using assms
proof (induction feeds arbitrary: lastError st)
  case Nil
  obtain w st' where w: "set_outerHTML env el sourceKey (ErrorCard (error_text lastError)) st = (w, st')"
    by (cases "set_outerHTML env el sourceKey (ErrorCard (error_text lastError)) st")
  then have "w = Inr ()"
    using set_outerHTML_returns [OF Nil.prems, of sourceKey "ErrorCard (error_text lastError)"] by simp
  then show ?case using w by simp
next
  case (Cons feedUrl rest)
  obtain urls where p: "snd (fetch_items env feedUrl st) = st\<lparr>requests := requests st @ urls\<rparr>"
    using fetch_items_page by blast
  have ok: "attached el (snd (fetch_items env feedUrl st)) \<or> \<not> detached_write_throws env"
    unfolding p using Cons.prems by simp
  show ?case
  proof (cases "fst (fetch_items env feedUrl st)")
    case (Inl error)
    then have no: "\<not> endpoint_yields env feedUrl st"
      using fetch_items_yields [of env feedUrl st] by simp
    have "feeds_loop env sourceKey el (feedUrl # rest) lastError st =
          feeds_loop env sourceKey el rest (Some error) (snd (fetch_items env feedUrl st))"
      by (simp add: try_feed_failure [OF Inl])
    then show ?thesis
      using Cons.IH [OF ok, of "Some error"] no by (simp add: fetch_items_snd)
  next
    case (Inr found)
    then have yes: "endpoint_yields env feedUrl st"
      using fetch_items_yields [of env feedUrl st] by simp
    obtain u st1 where t: "try_feed env sourceKey el feedUrl st = (u, st1)"
      by (cases "try_feed env sourceKey el feedUrl st")
    then have "u = Inr ()"
      using try_feed_returns [OF Inr Cons.prems, of sourceKey] by simp
    then show ?thesis using t yes by simp
  qed
qed

lemma try_feed_stale_raises:
  assumes "\<not> attached el st" and "detached_write_throws env"
  shows "\<exists>error. fst (try_feed env sourceKey el feedUrl st) = Inl error"
proof -
  obtain urls where p: "snd (fetch_items env feedUrl st) = st\<lparr>requests := requests st @ urls\<rparr>"
    using fetch_items_page by blast
  have det: "\<not> attached el (snd (fetch_items env feedUrl st))"
    unfolding p using assms(1) by simp
  show ?thesis
    using det assms(2)
    by (cases "fetch_items env feedUrl st")
       (auto simp: try_feed_def set_outerHTML_def split: sum.splits prod.splits)
qed

lemma feeds_loop_stale_raises:
  assumes "\<not> attached el st" and "detached_write_throws env"
  shows "fst (feeds_loop env sourceKey el feeds lastError st) = Inl (stale_write_error env)"
  using assms(1)
proof (induction feeds arbitrary: lastError st)
  case Nil
  then show ?case using assms(2) by (simp add: set_outerHTML_def stale_write_error_def)
next
  case (Cons feedUrl rest)
  obtain r st1 where t: "try_feed env sourceKey el feedUrl st = (r, st1)"
    by (cases "try_feed env sourceKey el feedUrl st")
  then have "shown st1 = shown st"
    using try_feed_detached [OF Cons.prems, of env sourceKey feedUrl] by simp
  then have det: "\<not> attached el st1"
    using Cons.prems by (simp add: attached_shown)
  from try_feed_stale_raises [OF Cons.prems assms(2), of sourceKey feedUrl] t
  obtain error where "r = Inl error" by auto
  then show ?case using t Cons.IH [OF det, of "Some error"] by simp
qed


lemma registry_keys_plain:
  "map_of RSS_FEEDS sourceKey = Some feeds \<Longrightarrow> plain_key sourceKey"
  by (auto simp: RSS_FEEDS_def plain_key_def split: if_splits)







text \<open>
  Claim C6. When no endpoint yields, the call returns \<open>false\<close> as long as the card element
  it found at its start is still in the document at the end, or the engine lets a write
  through a replaced element pass. When the element has been replaced during the fetches
  and the engine raises on such a write, the assignment of line 398, which stands outside
  the \<open>try\<close>, raises: the call ends with that exception instead of \<open>false\<close>, and no error
  card is written.
\<close>

theorem all_failed_stale_card:
  assumes "map_of RSS_FEEDS sourceKey = Some feeds"
    and "\<not> some_endpoint_yields env feeds st"
  shows "(attached cardElement st \<or> \<not> detached_write_throws env \<longrightarrow>
            fst (feeds_loop env sourceKey cardElement feeds None st) = Inr False) \<and>
         (\<not> attached cardElement st \<and> detached_write_throws env \<longrightarrow>
            fst (feeds_loop env sourceKey cardElement feeds None st) = Inl (stale_write_error env) \<and>
            shown (snd (feeds_loop env sourceKey cardElement feeds None st)) = shown st)"
  using assms(2)
  by (auto simp: feeds_loop_boolean feeds_loop_stale_raises feeds_loop_detached)

text \<open>
  Claim C10. Without a card for the key, \<open>fetchAndRenderSource\<close> returns \<open>false\<close> and
  leaves the page as it was: no request, no change of the document. With a card, the call
  is the loop over the feeds with that card element, and run without interference it
  returns whether some endpoint yielded a non-empty item list. The same holds for a loop
  that ends on a later page, unless its card element has been replaced by then and the
  engine raises on the write through it: then the call ends with the exception whatever the
  endpoints yielded, and returns no boolean.
\<close>

theorem fetchAndRenderSource_boolean:
  assumes "map_of RSS_FEEDS sourceKey = Some feeds"
  shows "(querySelector_card sourceKey st = None \<longrightarrow>
            fetchAndRenderSource env sourceKey st = (Inr False, st)) \<and>
         (querySelector_card sourceKey st = Some cardElement \<longrightarrow>
            fetchAndRenderSource env sourceKey st =
              feeds_loop env sourceKey cardElement feeds None st \<and>
            fst (fetchAndRenderSource env sourceKey st) = Inr (some_endpoint_yields env feeds st)) \<and>
         (attached el st' \<or> \<not> detached_write_throws env \<longrightarrow>
            fst (feeds_loop env sourceKey el feeds None st') =
              Inr (some_endpoint_yields env feeds st')) \<and>
         (\<not> attached el st' \<and> detached_write_throws env \<longrightarrow>
            fst (feeds_loop env sourceKey el feeds None st') = Inl (stale_write_error env))"
proof (intro conjI impI)
  assume "querySelector_card sourceKey st = None"
  then show "fetchAndRenderSource env sourceKey st = (Inr False, st)"
    by (simp add: fetchAndRenderSource_def)
next
  assume card: "querySelector_card sourceKey st = Some cardElement"
  then show run: "fetchAndRenderSource env sourceKey st =
              feeds_loop env sourceKey cardElement feeds None st"
    using assms by (simp add: fetchAndRenderSource_def)
  have "attached cardElement st" using card by (rule querySelector_card_attached)
  then show "fst (fetchAndRenderSource env sourceKey st) = Inr (some_endpoint_yields env feeds st)"
    unfolding run by (simp add: feeds_loop_boolean)
next
  assume "attached el st' \<or> \<not> detached_write_throws env"
  then show "fst (feeds_loop env sourceKey el feeds None st') =
              Inr (some_endpoint_yields env feeds st')"
    by (rule feeds_loop_boolean)
next
  assume "\<not> attached el st' \<and> detached_write_throws env"
  then show "fst (feeds_loop env sourceKey el feeds None st') = Inl (stale_write_error env)"
    by (simp add: feeds_loop_stale_raises)
qed


lemma sample_parser_texts:
  "sample_parser (feed_text ''A'') = rss_feed [feed_item ''A'']"
  "sample_parser (feed_text ''B'') = rss_feed [feed_item ''B'']"
  by (simp_all add: sample_parser_def feed_text_def ascii_def)

lemma served_headline:
  assumes "sample_parser (feed_text t) = rss_feed [feed_item t]"
    and "ascii t \<noteq> []" and "trim (unwrap_cdata (trim (ascii t))) = ascii t"
  shows "fetch_items (browser (serving t) raises) feedUrl st =
     (Inr ([headline t], just_updated), st\<lparr>requests := requests st @ [feedUrl]\<rparr>)"
proof -
  let ?env = "browser (serving t) raises"
  let ?body = "feed_text t"
  have doc: "parseFromString ?env ?body = rss_feed [feed_item t]"
    by (simp add: browser_def assms(1))
  have wf: "doc_querySelector [''parsererror''] (parseFromString ?env ?body) = None"
    unfolding doc using rss_feed_wellformed [of "[t]" ?body] by (simp add: test_platform_def)
  have entries: "itemElements (parseFromString ?env ?body) = [feed_item t]"
    unfolding doc using rss_feed_itemElements [of "[t]" ?body] by (simp add: test_platform_def)
  have ti: "entry_title (feed_item t) = ascii t"
    by (simp add: entry_title_feed_item assms(3))
  have item: "entry_item ?env 0 (feed_item t) 0 = headline t"
    by (simp add: entry_item_def headline_def ti entry_link_def entry_description_def
          entry_pubDate_def querySelector_def descendants_feed_item unwrap_cdata_def trim_def
          cdata_open_def ascii_eq_Nil Let_def)
  have parsed: "parseRSS ?env 0 ?body = Inr [headline t]"
    unfolding parseRSS_items [OF wf, of 0] entries using assms(2) by (simp add: ti item)
  have "fetch_outcome ?env (length (requests st)) feedUrl = Inr ?body"
    by (simp add: fetch_outcome_def browser_def serving_def)
  then have fetched: "fetchWithProxy ?env feedUrl st =
      (Inr ?body, st\<lparr>requests := requests st @ [feedUrl]\<rparr>)"
    by (rule fetchWithProxy_first_try)
  have now: "clock ?env n = 0" for n
    by (simp add: browser_def)
  have label: "formatTimeAgo 0 (DateValue (Date 0)) = just_updated"
    by (simp add: formatTimeAgo_def)
  show ?thesis
    by (simp add: fetch_items_def fetched now parsed Let_def label headline_def)
qed

lemma served_A:
  "fetch_items (browser (serving ''A'') raises) feedUrl st =
     (Inr ([headline ''A''], just_updated), st\<lparr>requests := requests st @ [feedUrl]\<rparr>)"
  by (rule served_headline [OF sample_parser_texts(1)])
     (simp_all add: ascii_def trim_def is_space_def unwrap_cdata_def cdata_open_def Let_def)


lemma served_yields:
  "some_endpoint_yields (browser (serving ''A'') raises) ap_feeds st"
proof -
  have "\<not> isl (fst (fetch_items (browser (serving ''A'') raises) (hd ap_feeds) st))"
    by (simp add: served_A)
  then have "endpoint_yields (browser (serving ''A'') raises) (hd ap_feeds) st"
    by (simp only: fetch_items_yields)
  then show ?thesis by (simp add: ap_feeds_def)
qed

lemma offline_yields_nothing:
  "\<not> some_endpoint_yields (browser offline raises) feeds st"
proof (induction feeds arbitrary: st)
  case Nil
  show ?case by simp
next
  case (Cons feedUrl rest)
  have down: "fetch_response (browser offline raises) =
                (\<lambda>n u. Rejected (Native ''TypeError'' (ascii ''Failed to fetch'')))"
    by (simp add: browser_def offline_def)
  have "list_all isl (outcomes (browser offline raises) (length (requests st))
                        (strategy_urls (browser offline raises) feedUrl))"
    using down by (rule outcomes_network_down)
  then have "\<not> endpoint_yields (browser offline raises) feedUrl st"
    by (simp add: endpoint_yields_def fetchWithProxy_exhausted)
  then show ?case using Cons.IH by simp
qed

lemma sample_page_facts:
  "page_ok (skeleton_page ''ap'')"
  "querySelector_card ''ap'' (skeleton_page ''ap'') = Some 0"
  "attached 0 (skeleton_page ''ap'')"
  "\<not> attached 0 stale_page"
  "querySelector_card ''ap'' empty_page = None"
  "map_of RSS_FEEDS ''ap'' = Some ap_feeds"
  by (simp_all add: page_ok_def querySelector_card_def attached_def skeleton_page_def
        stale_page_def replace_card_def empty_page_def RSS_FEEDS_def ap_feeds_def)

lemma sample_stale_error:
  "stale_write_error (browser network True) =
     Native ''NoModificationAllowedError'' (ascii ''This element has no parent node.'')"
  "detached_write_throws (browser network True)"
  by (simp_all add: stale_write_error_def browser_def)

theorem all_failed_stale_card_witness:
  "querySelector_card ''ap'' (skeleton_page ''ap'') = Some 0 \<and>
   fst (feeds_loop (browser offline True) ''ap'' 0 ap_feeds None (skeleton_page ''ap'')) = Inr False \<and>
   \<not> attached 0 stale_page \<and>
   \<not> some_endpoint_yields (browser offline True) ap_feeds stale_page \<and>
   fst (feeds_loop (browser offline True) ''ap'' 0 ap_feeds None stale_page) =
     Inl (Native ''NoModificationAllowedError'' (ascii ''This element has no parent node.''))"
proof -
  note w1 = all_failed_stale_card [where cardElement = 0 and st = "skeleton_page ''ap''"
              and env = "browser offline True", OF sample_page_facts(6) offline_yields_nothing]
  note w2 = all_failed_stale_card [where cardElement = 0 and st = stale_page
              and env = "browser offline True", OF sample_page_facts(6) offline_yields_nothing]
  have a: "fst (feeds_loop (browser offline True) ''ap'' 0 ap_feeds None (skeleton_page ''ap'')) = Inr False"
    using w1 sample_page_facts(3) by blast
  have "fst (feeds_loop (browser offline True) ''ap'' 0 ap_feeds None stale_page) =
          Inl (stale_write_error (browser offline True))"
    using w2 sample_page_facts(4) sample_stale_error(2) by blast
  then have b: "fst (feeds_loop (browser offline True) ''ap'' 0 ap_feeds None stale_page) =
     Inl (Native ''NoModificationAllowedError'' (ascii ''This element has no parent node.''))"
    by (simp only: sample_stale_error(1))
  show ?thesis
    by (intro conjI sample_page_facts(2) a sample_page_facts(4) offline_yields_nothing b)
qed

theorem fetchAndRenderSource_boolean_witness:
  "fetchAndRenderSource (browser (serving ''A'') True) ''ap'' empty_page = (Inr False, empty_page) \<and>
   fst (fetchAndRenderSource (browser (serving ''A'') True) ''ap'' (skeleton_page ''ap'')) = Inr True \<and>
   fst (fetchAndRenderSource (browser offline True) ''ap'' (skeleton_page ''ap'')) = Inr False \<and>
   some_endpoint_yields (browser (serving ''A'') True) ap_feeds stale_page \<and>
   fst (feeds_loop (browser (serving ''A'') True) ''ap'' 0 ap_feeds None stale_page) =
     Inl (Native ''NoModificationAllowedError'' (ascii ''This element has no parent node.''))"
proof -
  let ?on = "browser (serving ''A'') True"
  let ?off = "browser offline True"
  note w = fetchAndRenderSource_boolean [OF sample_page_facts(6)]
  have a: "fetchAndRenderSource ?on ''ap'' empty_page = (Inr False, empty_page)"
    using w [where st = empty_page and env = ?on and cardElement = 0 and el = 0
               and st' = empty_page] sample_page_facts(5) by blast
  have "fst (fetchAndRenderSource ?on ''ap'' (skeleton_page ''ap'')) =
          Inr (some_endpoint_yields ?on ap_feeds (skeleton_page ''ap''))"
    using w [where st = "skeleton_page ''ap''" and env = ?on and cardElement = 0 and el = 0
               and st' = empty_page] sample_page_facts(2) by blast
  then have b: "fst (fetchAndRenderSource ?on ''ap'' (skeleton_page ''ap'')) = Inr True"
    by (simp add: served_yields)
  have "fst (fetchAndRenderSource ?off ''ap'' (skeleton_page ''ap'')) =
          Inr (some_endpoint_yields ?off ap_feeds (skeleton_page ''ap''))"
    using w [where st = "skeleton_page ''ap''" and env = ?off and cardElement = 0 and el = 0
               and st' = empty_page] sample_page_facts(2) by blast
  then have c: "fst (fetchAndRenderSource ?off ''ap'' (skeleton_page ''ap'')) = Inr False"
    by (simp add: offline_yields_nothing)
  have "fst (feeds_loop ?on ''ap'' 0 ap_feeds None stale_page) = Inl (stale_write_error ?on)"
    using w [where st = empty_page and env = ?on and cardElement = 0 and el = 0
               and st' = stale_page] sample_page_facts(4) sample_stale_error(2) by blast
  then have d: "fst (feeds_loop ?on ''ap'' 0 ap_feeds None stale_page) =
     Inl (Native ''NoModificationAllowedError'' (ascii ''This element has no parent node.''))"
    by (simp only: sample_stale_error(1))
  show ?thesis
    by (intro conjI a b c served_yields d)
qed


end
